theory Spec2Isabelle
  imports Complex_Main "HOL-Library.Word"
begin

unbundle bit_operations_syntax

section \<open>Numbers\<close>

text \<open>
  A TypeScript \<open>number\<close> is modelled as a real extended by the three special values of
  IEEE-754 arithmetic, with the arithmetic and the comparisons that JavaScript gives
  them: \<open>NaN\<close> absorbs every arithmetic operation and fails every comparison, a division
  by zero yields an infinity or \<open>NaN\<close>, \<open>Infinity - Infinity\<close> and \<open>0 * Infinity\<close>
  are \<open>NaN\<close>. The result of an operation on finite values overflows as a double
  does: from \<open>2^1024 - 2^970\<close> on in magnitude it is an infinity, and between the largest
  double \<open>2^1024 - 2^971\<close> and that bound it is the largest double. Below the largest
  double the result is the exact one: the rounding of the last bit and the sign of zero
  are not modelled.
\<close>

datatype num = Fin real | PInf | NInf | NaN

definition maxDouble :: real where
  "maxDouble = 2 ^ 1024 - 2 ^ 971"

definition overflowAt :: real where
  "overflowAt = 2 ^ 1024 - 2 ^ 970"

definition ovf :: "real \<Rightarrow> num" where
  "ovf r = (if overflowAt \<le> r then PInf
            else if r \<le> - overflowAt then NInf
            else if maxDouble < r then Fin maxDouble
            else if r < - maxDouble then Fin (- maxDouble)
            else Fin r)"

instantiation num :: "{uminus, plus, minus, times, inverse, abs, ord}"
begin

fun uminus_num :: "num \<Rightarrow> num" where
  "uminus_num (Fin a) = Fin (- a)"
| "uminus_num PInf = NInf"
| "uminus_num NInf = PInf"
| "uminus_num NaN = NaN"

fun plus_num :: "num \<Rightarrow> num \<Rightarrow> num" where
  "plus_num (Fin a) (Fin b) = ovf (a + b)"
| "plus_num NaN _ = NaN"
| "plus_num _ NaN = NaN"
| "plus_num PInf NInf = NaN"
| "plus_num NInf PInf = NaN"
| "plus_num PInf _ = PInf"
| "plus_num _ PInf = PInf"
| "plus_num NInf _ = NInf"
| "plus_num _ NInf = NInf"

definition minus_num :: "num \<Rightarrow> num \<Rightarrow> num" where
  "minus_num a b = a + (- b)"

fun times_num :: "num \<Rightarrow> num \<Rightarrow> num" where
  "times_num (Fin a) (Fin b) = ovf (a * b)"
| "times_num NaN _ = NaN"
| "times_num _ NaN = NaN"
| "times_num (Fin a) PInf = (if a = 0 then NaN else if 0 < a then PInf else NInf)"
| "times_num (Fin a) NInf = (if a = 0 then NaN else if 0 < a then NInf else PInf)"
| "times_num PInf (Fin b) = (if b = 0 then NaN else if 0 < b then PInf else NInf)"
| "times_num NInf (Fin b) = (if b = 0 then NaN else if 0 < b then NInf else PInf)"
| "times_num PInf PInf = PInf"
| "times_num PInf NInf = NInf"
| "times_num NInf PInf = NInf"
| "times_num NInf NInf = PInf"

fun divide_num :: "num \<Rightarrow> num \<Rightarrow> num" where
  "divide_num (Fin a) (Fin b) =
     (if b = 0 then (if a = 0 then NaN else if 0 < a then PInf else NInf)
      else ovf (a / b))"
| "divide_num NaN _ = NaN"
| "divide_num _ NaN = NaN"
| "divide_num (Fin a) PInf = Fin 0"
| "divide_num (Fin a) NInf = Fin 0"
| "divide_num PInf (Fin b) = (if 0 \<le> b then PInf else NInf)"
| "divide_num NInf (Fin b) = (if 0 \<le> b then NInf else PInf)"
| "divide_num PInf PInf = NaN"
| "divide_num PInf NInf = NaN"
| "divide_num NInf PInf = NaN"
| "divide_num NInf NInf = NaN"

definition inverse_num :: "num \<Rightarrow> num" where
  "inverse_num a = divide (Fin 1) a"

fun abs_num :: "num \<Rightarrow> num" where
  "abs_num (Fin a) = Fin \<bar>a\<bar>"
| "abs_num PInf = PInf"
| "abs_num NInf = PInf"
| "abs_num NaN = NaN"

fun less_eq_num :: "num \<Rightarrow> num \<Rightarrow> bool" where
  "less_eq_num (Fin a) (Fin b) = (a \<le> b)"
| "less_eq_num NaN _ = False"
| "less_eq_num _ NaN = False"
| "less_eq_num NInf _ = True"
| "less_eq_num _ PInf = True"
| "less_eq_num PInf _ = False"
| "less_eq_num _ NInf = False"

fun less_num :: "num \<Rightarrow> num \<Rightarrow> bool" where
  "less_num (Fin a) (Fin b) = (a < b)"
| "less_num NaN _ = False"
| "less_num _ NaN = False"
| "less_num PInf _ = False"
| "less_num _ NInf = False"
| "less_num NInf _ = True"
| "less_num _ PInf = True"

instance ..

end

text \<open>\<open>Number.isFinite\<close>: a finite value that a double can have in magnitude.\<close>

fun isFinite :: "num \<Rightarrow> bool" where
  "isFinite (Fin a) = (\<bar>a\<bar> \<le> maxDouble)"
| "isFinite _ = False"

text \<open>\<open>Math.min\<close> and \<open>Math.max\<close> of an argument list: \<open>NaN\<close> if any argument is,
  \<open>Infinity\<close> (\<open>-Infinity\<close>) for no argument.\<close>

definition min2 :: "num \<Rightarrow> num \<Rightarrow> num" where
  "min2 a b = (if a = NaN \<or> b = NaN then NaN else if a \<le> b then a else b)"

definition max2 :: "num \<Rightarrow> num \<Rightarrow> num" where
  "max2 a b = (if a = NaN \<or> b = NaN then NaN else if a \<le> b then b else a)"

definition Math_min :: "num list \<Rightarrow> num" where
  "Math_min as = foldl min2 PInf as"

definition Math_max :: "num list \<Rightarrow> num" where
  "Math_max as = foldl max2 NInf as"

text \<open>\<open>Math.hypot\<close> of two arguments: \<open>Infinity\<close> if either is infinite, else
  \<open>NaN\<close> if either is, else the root of the sum of the squares.\<close>

fun Math_hypot :: "num \<Rightarrow> num \<Rightarrow> num" where
  "Math_hypot (Fin a) (Fin b) = ovf (sqrt (a * a + b * b))"
| "Math_hypot PInf _ = PInf"
| "Math_hypot NInf _ = PInf"
| "Math_hypot _ PInf = PInf"
| "Math_hypot _ NInf = PInf"
| "Math_hypot NaN _ = NaN"
| "Math_hypot _ NaN = NaN"

section \<open>Data model\<close>

text \<open>The interfaces of \<open>types.ts\<close> and of the slicer. The coordinates of a
  \<open>Position\<close> are the fields \<open>px\<close>, \<open>py\<close>, \<open>pz\<close>, its two optional fields are
  options; the ends of a \<open>Segment\<close> are \<open>seg_start\<close> and \<open>seg_end\<close>.\<close>

record Position =
  px :: num
  py :: num
  pz :: num
  pe :: "num option"
  isTravel :: "bool option"

record Triangle =
  p1 :: Position
  p2 :: Position
  p3 :: Position
  normal :: Position

record Segment =
  seg_start :: Position
  seg_end :: Position

text \<open>An object literal \<open>{x, y, z}\<close>: the optional fields are absent.\<close>

definition mkPos :: "num \<Rightarrow> num \<Rightarrow> num \<Rightarrow> Position" where
  "mkPos a b c = \<lparr>px = a, py = b, pz = c, pe = None, isTravel = None\<rparr>"

section \<open>Plane intersection\<close>

definition intersectEdge :: "num \<Rightarrow> Position \<Rightarrow> Position \<Rightarrow> Position" where
  "intersectEdge z q1 q2 =
     (let t = (z - pz q1) / (pz q2 - pz q1)
      in mkPos (px q1 + t * (px q2 - px q1)) (py q1 + t * (py q2 - py q1)) z)"

definition intersectTriangleZ :: "Triangle \<Rightarrow> num \<Rightarrow> Segment option" where
  "intersectTriangleZ tri z =
     (let points = [p1 tri, p2 tri, p3 tri];
          above = filter (\<lambda>p. pz p \<ge> z) points;
          below = filter (\<lambda>p. \<not> pz p \<ge> z) points
      in if length above = 3 \<or> length below = 3 then None
         else if length above = 1 \<and> length below = 2 then
           Some \<lparr>seg_start = intersectEdge z (above ! 0) (below ! 0),
                 seg_end = intersectEdge z (above ! 0) (below ! 1)\<rparr>
         else if length above = 2 \<and> length below = 1 then
           Some \<lparr>seg_start = intersectEdge z (below ! 0) (above ! 0),
                 seg_end = intersectEdge z (below ! 0) (above ! 1)\<rparr>
         else None)"

section \<open>Contour stitching\<close>

definition EPSILON :: num where
  "EPSILON = Fin 0.05"

text \<open>\<open>Array.prototype.findIndex\<close>: the first index whose element satisfies the
  predicate; \<open>None\<close> stands for the result \<open>-1\<close>.\<close>

fun findIndex :: "('a \<Rightarrow> bool) \<Rightarrow> 'a list \<Rightarrow> nat option" where
  "findIndex P [] = None"
| "findIndex P (a # as) = (if P a then Some 0 else map_option Suc (findIndex P as))"

lemma findIndex_less: "findIndex P as = Some i \<Longrightarrow> i < length as"
  by (induction as arbitrary: i) (auto split: if_splits)

text \<open>The inner \<open>while (growing)\<close> loop of \<open>chainSegments\<close>, on the loop under
  construction and the pool; \<open>pool.splice(nextIdx, 1)\<close> removes the element found.
  The loop always holds at least the two ends of its first segment.\<close>

function grow :: "Position list \<Rightarrow> Segment list \<Rightarrow> Position list \<times> Segment list" where
  "grow loop pool =
     (let tail = last loop in
      case findIndex (\<lambda>seg.
             Math_hypot (px (seg_start seg) - px tail) (py (seg_start seg) - py tail) < EPSILON \<or>
             Math_hypot (px (seg_end seg) - px tail) (py (seg_end seg) - py tail) < EPSILON) pool of
        None \<Rightarrow> (loop, pool)
      | Some nextIdx \<Rightarrow>
          (let nextSeg = pool ! nextIdx;
               pool' = take nextIdx pool @ drop (Suc nextIdx) pool;
               matchStart =
                 (Math_hypot (px (seg_start nextSeg) - px tail) (py (seg_start nextSeg) - py tail)
                    < EPSILON)
           in if matchStart then grow (loop @ [seg_end nextSeg]) pool'
              else grow (loop @ [seg_start nextSeg]) pool'))"
  by pat_completeness auto
termination
  by (relation "measure (\<lambda>(loop, pool). length pool)") (auto dest: findIndex_less)

text \<open>The closure check after the growth: the last point is replaced by the first
  when the two lie closer than \<open>EPSILON * 2\<close>.\<close>

definition closeLoop :: "Position list \<Rightarrow> Position list" where
  "closeLoop loop =
     (let head = loop ! 0; tail = last loop
      in if Math_hypot (px head - px tail) (py head - py tail) < EPSILON * Fin 2
         then loop[length loop - 1 := head] else loop)"

lemma grow_pool_length: "length (snd (grow loop pool)) \<le> length pool"
proof (induction loop pool rule: grow.induct)
  case (1 loop pool)
  show ?case
  proof (cases "findIndex (\<lambda>seg.
             Math_hypot (px (seg_start seg) - px (last loop)) (py (seg_start seg) - py (last loop)) < EPSILON \<or>
             Math_hypot (px (seg_end seg) - px (last loop)) (py (seg_end seg) - py (last loop)) < EPSILON) pool")
    case None
    then show ?thesis by (subst grow.simps) simp
  next
    case (Some i)
    have i: "i < length pool" using Some by (rule findIndex_less)
    define pool' where "pool' = take i pool @ drop (Suc i) pool"
    define m where "m \<longleftrightarrow> Math_hypot (px (seg_start (pool ! i)) - px (last loop))
        (py (seg_start (pool ! i)) - py (last loop)) < EPSILON"
    have len: "length pool' \<le> length pool" by (simp add: pool'_def)
    have unfold: "grow loop pool =
        (if m then grow (loop @ [seg_end (pool ! i)]) pool'
         else grow (loop @ [seg_start (pool ! i)]) pool')"
      by (subst grow.simps) (simp add: Some Let_def pool'_def m_def del: grow.simps)
    show ?thesis
    proof (cases m)
      case True
      then have "length (snd (grow (loop @ [seg_end (pool ! i)]) pool')) \<le> length pool'"
        using "1.IH"(1) [OF refl Some refl refl refl] unfolding pool'_def m_def by simp
      then show ?thesis using True len unfold by simp
    next
      case False
      then have "length (snd (grow (loop @ [seg_start (pool ! i)]) pool')) \<le> length pool'"
        using "1.IH"(2) [OF refl Some refl refl refl] unfolding pool'_def m_def by simp
      then show ?thesis using False len unfold by simp
    qed
  qed
qed

text \<open>The outer \<open>while (pool.length > 0)\<close> loop: \<open>pool.pop()\<close> takes the last
  segment of the pool.\<close>

function chainLoop :: "Segment list \<Rightarrow> Position list list \<Rightarrow> Position list list" where
  "chainLoop pool loops =
     (if length pool > 0 then
        (let firstSeg = last pool;
             grown = grow [seg_start firstSeg, seg_end firstSeg] (butlast pool);
             loop = closeLoop (fst grown)
         in chainLoop (snd grown) (if length loop > 2 then loops @ [loop] else loops))
      else loops)"
  by pat_completeness auto
termination
proof (relation "measure (\<lambda>(pool, loops). length pool)")
  fix pool :: "Segment list" and loops :: "Position list list"
    and firstSeg :: Segment and grown :: "Position list \<times> Segment list" and loop :: "Position list"
  assume "0 < length pool" and "grown = grow [seg_start firstSeg, seg_end firstSeg] (butlast pool)"
  then show "((snd grown, if 2 < length loop then loops @ [loop] else loops), pool, loops)
          \<in> measure (\<lambda>(pool, loops). length pool)"
    using grow_pool_length [of "[seg_start firstSeg, seg_end firstSeg]" "butlast pool"]
    by (cases pool rule: rev_cases) auto
qed simp

declare grow.simps [simp del] chainLoop.simps [simp del]

definition chainSegments :: "Segment list \<Rightarrow> Position list list" where
  "chainSegments segments = chainLoop segments []"

section \<open>Transform and bounds\<close>

record ModelTransform =
  tx :: num
  ty :: num
  tz :: num
  tscale :: num
  rotation :: num

definition applyTransform :: "Triangle \<Rightarrow> ModelTransform \<Rightarrow> Triangle" where
  "applyTransform tri t =
     (let transformPoint =
            (\<lambda>p. mkPos (px p * tscale t + tx t) (py p * tscale t + ty t) (pz p * tscale t + tz t))
      in \<lparr>p1 = transformPoint (p1 tri), p2 = transformPoint (p2 tri),
          p3 = transformPoint (p3 tri), normal = normal tri\<rparr>)"

definition getZBounds :: "Triangle list \<Rightarrow> num \<times> num" where
  "getZBounds triangles =
     foldl (\<lambda>(mn, mx) t.
              (Math_min [mn, pz (p1 t), pz (p2 t), pz (p3 t)],
               Math_max [mx, pz (p1 t), pz (p2 t), pz (p3 t)]))
       (PInf, NInf) triangles"

section \<open>Layer slicing\<close>

record SlicerSettings =
  filamentDiameter :: num
  nozzleDiameter :: num
  layerHeight :: num
  temperature :: num
  travelSpeed :: num
  printSpeed :: num

text \<open>The body of the loop over the triangles at one height: the extent check, then
  the intersection, whose segment is pushed when there is one.\<close>

definition layerSegments :: "Triangle list \<Rightarrow> num \<Rightarrow> Segment list" where
  "layerSegments triangles z =
     foldl (\<lambda>segs tri.
              (let tMin = Math_min [pz (p1 tri), pz (p2 tri), pz (p3 tri)];
                   tMax = Math_max [pz (p1 tri), pz (p2 tri), pz (p3 tri)]
               in if z < tMin \<or> z > tMax then segs
                  else (case intersectTriangleZ tri z of
                          None \<Rightarrow> segs
                        | Some seg \<Rightarrow> segs @ [seg])))
       [] triangles"

definition layerContours :: "Triangle list \<Rightarrow> num \<Rightarrow> Position list list" where
  "layerContours triangles z =
     (let segs = layerSegments triangles z
      in if length segs > 0 then chainSegments segs else [])"

text \<open>The loop \<open>for (let z = minZ + 0.2; z <= maxZ; z += settings.layerHeight)\<close>. It
  need not end (a layer height that is zero, negative or \<open>NaN\<close>, or one that leaves
  \<open>z\<close> unchanged when added to it, never passes \<open>maxZ\<close>): \<open>None\<close> is the run that does
  not return.\<close>

partial_function (option) sliceLoop ::
  "Triangle list \<Rightarrow> num \<Rightarrow> num \<Rightarrow> num \<Rightarrow> Position list list list \<Rightarrow> Position list list list option"
where
  "sliceLoop triangles h maxZ z layers =
     (if z \<le> maxZ then sliceLoop triangles h maxZ (z + h) (layers @ [layerContours triangles z])
      else Some layers)"

section \<open>Toolpath emission\<close>

text \<open>The conversions of a number to text are the language's own, not the program's:
  \<open>numToString\<close> is the conversion of a template literal, \<open>toFixed\<close> is
  \<open>Number.prototype.toFixed\<close>. The emitter takes them as a parameter.\<close>

record Formatter =
  numToString :: "num \<Rightarrow> string"
  toFixed :: "num \<Rightarrow> nat \<Rightarrow> string"

record GCodeFile =
  name :: string
  lines :: "string list"
  fileTotalTime :: num
  fileTotalFilament :: num

record SliceResult =
  paths :: "Position list"
  gcode :: GCodeFile

text \<open>The variables that the emission updates.\<close>

record EmitState =
  gcodeLines :: "string list"
  visualPath :: "Position list"
  totalFilament :: num
  totalTime :: num
  currentPos :: Position

fun Math_pow :: "num \<Rightarrow> nat \<Rightarrow> num" where
  "Math_pow a 0 = Fin 1"
| "Math_pow a (Suc n) = a * Math_pow a n"

definition preamble :: "Formatter \<Rightarrow> SlicerSettings \<Rightarrow> string list" where
  "preamble F settings =
     [''; Generated by DeltaSim Pro Slicer'',
      ''M104 S'' @ numToString F (temperature settings) @ '' ; Set Temp'',
      ''G28 ; Home all axes'',
      ''M109 S'' @ numToString F (temperature settings) @ '' ; Wait for Temp'',
      ''G90 ; Absolute positioning'',
      ''G92 E0 ; Reset Extruder'']"

definition postamble :: "string list" where
  "postamble = [''M104 S0 ; Turn off heater'', ''G28 ; Home'', ''M84 ; Disable motors'']"

text \<open>The travel to the start of a loop.\<close>

definition travelTo :: "Formatter \<Rightarrow> SlicerSettings \<Rightarrow> num \<Rightarrow> EmitState \<Rightarrow> Position \<Rightarrow> EmitState" where
  "travelTo F settings layerZ st start =
     (let travelDist = Math_hypot (px start - px (currentPos st)) (py start - py (currentPos st))
      in if travelDist > Fin 0.05 then
           st\<lparr>gcodeLines := gcodeLines st @
                  [''G0 X'' @ toFixed F (px start) 3 @ '' Y'' @ toFixed F (py start) 3 @
                   '' F'' @ numToString F (travelSpeed settings)],
              visualPath := visualPath st @ [mkPos (px start) (py start) layerZ],
              totalTime := totalTime st + (travelDist / travelSpeed settings) * Fin 60,
              currentPos := start\<lparr>pz := layerZ\<rparr>\<rparr>
         else st)"

text \<open>One pass of the loop over the points of a contour after the first.\<close>

definition extrudeTo :: "Formatter \<Rightarrow> SlicerSettings \<Rightarrow> num \<Rightarrow> num \<Rightarrow> EmitState \<Rightarrow> Position \<Rightarrow> EmitState" where
  "extrudeTo F settings extrusionPerMM layerZ st p =
     (let dist = Math_hypot (px p - px (currentPos st)) (py p - py (currentPos st));
          extrudeAmount = dist * extrusionPerMM;
          totalFilament' = totalFilament st + extrudeAmount
      in st\<lparr>totalFilament := totalFilament',
            gcodeLines := gcodeLines st @
              [''G1 X'' @ toFixed F (px p) 3 @ '' Y'' @ toFixed F (py p) 3 @
               '' E'' @ toFixed F totalFilament' 5 @ '' F'' @ numToString F (printSpeed settings)],
            visualPath := visualPath st @ [mkPos (px p) (py p) layerZ],
            totalTime := totalTime st + (dist / printSpeed settings) * Fin 60,
            currentPos := p\<lparr>pz := layerZ\<rparr>\<rparr>)"

text \<open>The callback of \<open>loops.forEach\<close>.\<close>

definition emitLoop :: "Formatter \<Rightarrow> SlicerSettings \<Rightarrow> num \<Rightarrow> num \<Rightarrow> EmitState \<Rightarrow> Position list \<Rightarrow> EmitState" where
  "emitLoop F settings extrusionPerMM layerZ st loop =
     (if length loop < 2 then st
      else foldl (extrudeTo F settings extrusionPerMM layerZ)
             (travelTo F settings layerZ st (loop ! 0)) (drop 1 loop))"

text \<open>The start of a layer that has loops: the comment, the move in Z and its time.\<close>

definition layerMove :: "Formatter \<Rightarrow> SlicerSettings \<Rightarrow> num \<Rightarrow> nat \<Rightarrow> EmitState \<Rightarrow> EmitState" where
  "layerMove F settings layerZ index st =
     st\<lparr>gcodeLines := gcodeLines st @
            [''; --- Layer '' @ numToString F (Fin (real (index + 1))) @ '' Z='' @
               toFixed F layerZ 2 @ '' ---'',
             ''G1 Z'' @ toFixed F layerZ 3 @ '' F'' @ numToString F (travelSpeed settings)],
         totalTime := totalTime st +
            (\<bar>layerZ - pz (currentPos st)\<bar> / travelSpeed settings) * Fin 60,
         currentPos := (currentPos st)\<lparr>pz := layerZ\<rparr>\<rparr>"

text \<open>The callback of \<open>layers.forEach\<close>, on the pair of the index and the loops.\<close>

definition emitLayer :: "Formatter \<Rightarrow> SlicerSettings \<Rightarrow> num \<Rightarrow> num \<Rightarrow> EmitState \<Rightarrow> nat \<times> Position list list \<Rightarrow> EmitState" where
  "emitLayer F settings extrusionPerMM minZ st il =
     (let index = fst il; loops = snd il;
          layerZ = minZ + Fin 0.2 + (Fin (real index) * layerHeight settings)
      in if length loops = 0 then st
         else foldl (emitLoop F settings extrusionPerMM layerZ)
                (layerMove F settings layerZ index st) loops)"

definition emitLayers :: "Formatter \<Rightarrow> SlicerSettings \<Rightarrow> num \<Rightarrow> num \<Rightarrow> EmitState \<Rightarrow> Position list list list \<Rightarrow> EmitState" where
  "emitLayers F settings extrusionPerMM minZ st layers =
     foldl (emitLayer F settings extrusionPerMM minZ) st (enumerate 0 layers)"

text \<open>\<open>sliceMesh\<close>; \<open>None\<close> when the loop over the heights does not end.\<close>

definition sliceMesh :: "Formatter \<Rightarrow> Triangle list \<Rightarrow> ModelTransform \<Rightarrow> SlicerSettings \<Rightarrow> SliceResult option" where
  "sliceMesh F rawTriangles transform settings =
     (let triangles = map (\<lambda>t. applyTransform t transform) rawTriangles;
          minZ = fst (getZBounds triangles);
          maxZ = snd (getZBounds triangles);
          filamentArea = Fin pi * Math_pow (filamentDiameter settings / Fin 2) 2;
          extrusionPerMM = (nozzleDiameter settings * layerHeight settings) / filamentArea
      in case sliceLoop triangles (layerHeight settings) maxZ (minZ + Fin 0.2) [] of
           None \<Rightarrow> None
         | Some layers \<Rightarrow>
             (let st0 = \<lparr>gcodeLines = preamble F settings, visualPath = [],
                         totalFilament = Fin 0, totalTime = Fin 0,
                         currentPos = mkPos (Fin 0) (Fin 0) (Fin 0)\<rparr>;
                  st = emitLayers F settings extrusionPerMM minZ st0 layers
              in Some \<lparr>paths = visualPath st,
                       gcode = \<lparr>name = ''output.gcode'', lines = gcodeLines st @ postamble,
                                fileTotalTime = totalTime st,
                                fileTotalFilament = totalFilament st\<rparr>\<rparr>))"

section \<open>Mesh decoding\<close>

text \<open>An \<open>ArrayBuffer\<close> is its list of bytes. A \<open>DataView\<close> read that leaves the
  buffer throws \<open>RangeError\<close>, and \<open>parseSTL\<close> catches nothing: the error is its
  result. Both reads are little-endian.\<close>

datatype error = RangeError

definition bindE :: "error + 'a \<Rightarrow> ('a \<Rightarrow> error + 'b) \<Rightarrow> error + 'b" where
  "bindE m f = (case m of Inl e \<Rightarrow> Inl e | Inr a \<Rightarrow> f a)"

definition getUint32 :: "8 word list \<Rightarrow> nat \<Rightarrow> error + 32 word" where
  "getUint32 buffer byteOffset =
     (if byteOffset + 4 > length buffer then Inl RangeError
      else Inr (ucast (buffer ! byteOffset)
                OR push_bit 8 (ucast (buffer ! (byteOffset + 1)))
                OR push_bit 16 (ucast (buffer ! (byteOffset + 2)))
                OR push_bit 24 (ucast (buffer ! (byteOffset + 3)))))"

text \<open>The value of an IEEE-754 single: sign bit, eight bits of exponent, twenty-three
  of fraction.\<close>

definition decodeFloat32 :: "32 word \<Rightarrow> num" where
  "decodeFloat32 w =
     (let s = bit w 31;
          ex = unat (take_bit 8 (drop_bit 23 w));
          m = unat (take_bit 23 w);
          sign = (if s then - 1 else 1 :: real)
      in if ex = 255 then (if m = 0 then (if s then NInf else PInf) else NaN)
         else if ex = 0 then Fin (sign * real m / 2 ^ 149)
         else if 150 \<le> ex then Fin (sign * real (2 ^ 23 + m) * 2 ^ (ex - 150))
         else Fin (sign * real (2 ^ 23 + m) / 2 ^ (150 - ex)))"

definition getFloat32 :: "8 word list \<Rightarrow> nat \<Rightarrow> error + num" where
  "getFloat32 buffer byteOffset = bindE (getUint32 buffer byteOffset) (\<lambda>w. Inr (decodeFloat32 w))"

text \<open>An object literal of three consecutive floats, read in the order \<open>x\<close>, \<open>y\<close>,
  \<open>z\<close>.\<close>

definition readVec :: "8 word list \<Rightarrow> nat \<Rightarrow> error + Position" where
  "readVec buffer offset =
     bindE (getFloat32 buffer offset) (\<lambda>vx.
     bindE (getFloat32 buffer (offset + 4)) (\<lambda>vy.
     bindE (getFloat32 buffer (offset + 8)) (\<lambda>vz.
     Inr (mkPos vx vy vz))))"

text \<open>The body of the loop of \<open>parseSTL\<close>: the normal, then the three vertices.\<close>

definition readTriangle :: "8 word list \<Rightarrow> nat \<Rightarrow> error + Triangle" where
  "readTriangle buffer offset =
     bindE (readVec buffer offset) (\<lambda>normal.
     bindE (readVec buffer (offset + 12)) (\<lambda>p1.
     bindE (readVec buffer (offset + 24)) (\<lambda>p2.
     bindE (readVec buffer (offset + 36)) (\<lambda>p3.
     Inr \<lparr>p1 = p1, p2 = p2, p3 = p3, normal = normal\<rparr>))))"

text \<open>The loop \<open>for (let i = 0; i < limit; i++)\<close>, on the number of passes left.\<close>

fun parseLoop :: "8 word list \<Rightarrow> nat \<Rightarrow> nat \<Rightarrow> Triangle list \<Rightarrow> error + Triangle list" where
  "parseLoop buffer offset 0 triangles = Inr triangles"
| "parseLoop buffer offset (Suc n) triangles =
     bindE (readTriangle buffer offset) (\<lambda>tri.
     parseLoop buffer (offset + 50) n (triangles @ [tri]))"

definition parseSTL :: "8 word list \<Rightarrow> error + Triangle list" where
  "parseSTL buffer =
     bindE (getUint32 buffer 80) (\<lambda>triangleCount.
     (let limit = min (unat triangleCount) 25000
      in parseLoop buffer 84 limit []))"

section \<open>Predicates and reference definitions of the properties\<close>

text \<open>A position whose three coordinates are finite numbers.\<close>

definition finitePos :: "Position \<Rightarrow> bool" where
  "finitePos p = (isFinite (px p) \<and> isFinite (py p) \<and> isFinite (pz p))"

text \<open>The intersection of an edge with the plane as the specification words it:
  \<open>t = (target - z0) / (z1 - z0)\<close>, X and Y interpolated by \<open>t\<close>, Z the target.\<close>

definition edgePlanePoint :: "num \<Rightarrow> Position \<Rightarrow> Position \<Rightarrow> Position" where
  "edgePlanePoint target v0 v1 =
     mkPos (px v0 + ((target - pz v0) / (pz v1 - pz v0)) * (px v1 - px v0))
           (py v0 + ((target - pz v0) / (pz v1 - pz v0)) * (py v1 - py v0))
           target"

text \<open>The segments of a layer when every triangle is intersected, without the extent
  check.\<close>

definition allSegments :: "Triangle list \<Rightarrow> num \<Rightarrow> Segment list" where
  "allSegments triangles z =
     foldl (\<lambda>segs tri. case intersectTriangleZ tri z of None \<Rightarrow> segs | Some seg \<Rightarrow> segs @ [seg])
       [] triangles"

text \<open>Two triangles for the examples: one with the edge \<open>p1 p2\<close> in the plane
  \<open>Z = 5\<close>, one with its vertices at \<open>Z = 0, 0, 10\<close>.\<close>

definition inPlaneTri :: Triangle where
  "inPlaneTri = \<lparr>p1 = mkPos (Fin 0) (Fin 0) (Fin 5), p2 = mkPos (Fin 4) (Fin 0) (Fin 5),
            p3 = mkPos (Fin 0) (Fin 6) (Fin 0), normal = mkPos (Fin 0) (Fin 0) (Fin 1)\<rparr>"

definition exTri :: Triangle where
  "exTri = \<lparr>p1 = mkPos (Fin 0) (Fin 0) (Fin 0), p2 = mkPos (Fin 4) (Fin 0) (Fin 0),
            p3 = mkPos (Fin 0) (Fin 6) (Fin 10), normal = mkPos (Fin 0) (Fin 0) (Fin 1)\<rparr>"

text \<open>The loops of \<open>chainSegments\<close> as the growth leaves them, before the closure
  check and the test of the length: the same iteration as \<open>chainLoop\<close>, recording the
  grown loop of each pass.\<close>

function grownLoops :: "Segment list \<Rightarrow> Position list list" where
  "grownLoops pool =
     (if length pool > 0 then
        (let firstSeg = last pool;
             grown = grow [seg_start firstSeg, seg_end firstSeg] (butlast pool)
         in fst grown # grownLoops (snd grown))
      else [])"
  by pat_completeness auto
termination
proof (relation "measure length")
  fix pool :: "Segment list" and firstSeg :: Segment and grown :: "Position list \<times> Segment list"
  assume "0 < length pool" and "grown = grow [seg_start firstSeg, seg_end firstSeg] (butlast pool)"
  then show "(snd grown, pool) \<in> measure length"
    using grow_pool_length [of "[seg_start firstSeg, seg_end firstSeg]" "butlast pool"]
    by (cases pool rule: rev_cases) auto
qed simp

declare grownLoops.simps [simp del]

text \<open>Two points closer than \<open>2 * EPSILON\<close> in X and Y.\<close>

definition near2 :: "Position \<Rightarrow> Position \<Rightarrow> bool" where
  "near2 a b = (Math_hypot (px a - px b) (py a - py b) < EPSILON * Fin 2)"

text \<open>Three segments around a triangle, whose ends meet within the tolerance.\<close>

definition triSegs :: "Segment list" where
  "triSegs = [\<lparr>seg_start = mkPos (Fin 0) (Fin 0) (Fin 1), seg_end = mkPos (Fin 1) (Fin 0) (Fin 1)\<rparr>,
              \<lparr>seg_start = mkPos (Fin 1.03) (Fin 1.04) (Fin 1), seg_end = mkPos (Fin 1) (Fin 0) (Fin 1)\<rparr>,
              \<lparr>seg_start = mkPos (Fin 1) (Fin 1) (Fin 1), seg_end = mkPos (Fin 0.03) (Fin 0.03) (Fin 1)\<rparr>]"

text \<open>Two buffers with a header that declares one triangle: one without the record,
  one with the 48 bytes of it that are read; and a buffer that declares 30000 triangles
  (\<open>0x7530\<close>) and holds 25000 records less the last two bytes.\<close>

definition truncatedBuffer :: "8 word list" where
  "truncatedBuffer = replicate 80 0 @ [1, 0, 0, 0]"

definition oneRecordBuffer :: "8 word list" where
  "oneRecordBuffer = replicate 80 0 @ [1, 0, 0, 0] @ replicate 48 0"

definition cappedBuffer :: "8 word list" where
  "cappedBuffer = replicate 80 0 @ [0x30, 0x75, 0, 0] @ replicate 1249998 0"

text \<open>A formatter, a transform, settings and a flat triangle for the examples.\<close>

definition exFormatter :: Formatter where
  "exFormatter = \<lparr>numToString = (\<lambda>a. ''n''), toFixed = (\<lambda>a d. ''f'')\<rparr>"

definition idTransform :: ModelTransform where
  "idTransform = \<lparr>tx = Fin 0, ty = Fin 0, tz = Fin 0, tscale = Fin 1, rotation = Fin 0\<rparr>"

definition exSettings :: SlicerSettings where
  "exSettings = \<lparr>filamentDiameter = Fin 1.75, nozzleDiameter = Fin 0.4, layerHeight = Fin 4,
      temperature = Fin 200, travelSpeed = Fin 3000, printSpeed = Fin 1500\<rparr>"

definition flatTri :: Triangle where
  "flatTri = \<lparr>p1 = mkPos (Fin 0) (Fin 0) (Fin 0), p2 = mkPos (Fin 4) (Fin 0) (Fin 0),
            p3 = mkPos (Fin 0) (Fin 6) (Fin 0), normal = mkPos (Fin 0) (Fin 0) (Fin 1)\<rparr>"

text \<open>An emission state whose totals and tool position are finite; and the order of two
  states by both totals.\<close>

definition goodState :: "EmitState \<Rightarrow> bool" where
  "goodState st = (isFinite (totalFilament st) \<and> isFinite (totalTime st) \<and> finitePos (currentPos st))"

definition totalsLe :: "EmitState \<Rightarrow> EmitState \<Rightarrow> bool" where
  "totalsLe st st' = (totalFilament st \<le> totalFilament st' \<and> totalTime st \<le> totalTime st')"

text \<open>The state at the start of the emission (without the preamble), settings with a
  negative print speed, and two loops: one that starts at the tool position of the start
  state, one that starts 0.05 mm from it.\<close>

definition startState :: EmitState where
  "startState = \<lparr>gcodeLines = [], visualPath = [], totalFilament = Fin 0, totalTime = Fin 0,
                 currentPos = mkPos (Fin 0) (Fin 0) (Fin 0)\<rparr>"

definition reverseSettings :: SlicerSettings where
  "reverseSettings = exSettings\<lparr>printSpeed := Fin (- 1500)\<rparr>"

definition exLoop :: "Position list" where
  "exLoop = [mkPos (Fin 0) (Fin 0) (Fin 0), mkPos (Fin 1) (Fin 0) (Fin 0), mkPos (Fin 1) (Fin 1) (Fin 0)]"

definition nearLoop :: "Position list" where
  "nearLoop = [mkPos (Fin 0.03) (Fin 0.04) (Fin 0), mkPos (Fin 0.03) (Fin 1.04) (Fin 0),
               mkPos (Fin 1.03) (Fin 1.04) (Fin 0)]"

text \<open>A mesh of two triangles that share the vertex at the origin and an edge; the plane
  \<open>Z = 0.2\<close> cuts them in two segments that chain into a loop of three points.\<close>

definition fanMesh :: "Triangle list" where
  "fanMesh =
     [\<lparr>p1 = mkPos (Fin 0) (Fin 0) (Fin 0), p2 = mkPos (Fin 5) (Fin 5) (Fin 1),
       p3 = mkPos (Fin 0) (Fin 5) (Fin 1), normal = mkPos (Fin 0) (Fin 0) (Fin 1)\<rparr>,
      \<lparr>p1 = mkPos (Fin 0) (Fin 0) (Fin 0), p2 = mkPos (Fin 5) (Fin 0) (Fin 1),
       p3 = mkPos (Fin 5) (Fin 5) (Fin 1), normal = mkPos (Fin 0) (Fin 0) (Fin 1)\<rparr>]"



text \<open>For the totals of the emission: a value that is finite or \<open>Infinity\<close>; an amount that is
  a non-negative double or \<open>Infinity\<close>; and a state whose totals are finite or \<open>Infinity\<close>
  and whose tool position is finite in X and Y.\<close>

definition upward :: "num \<Rightarrow> bool" where
  "upward a = (isFinite a \<or> a = PInf)"

definition nonnegUp :: "num \<Rightarrow> bool" where
  "nonnegUp a = (a = PInf \<or> (\<exists>r. a = Fin r \<and> 0 \<le> r \<and> r \<le> maxDouble))"

definition okState :: "EmitState \<Rightarrow> bool" where
  "okState st = (upward (totalFilament st) \<and> upward (totalTime st)
     \<and> isFinite (px (currentPos st)) \<and> isFinite (py (currentPos st)))"

text \<open>The value of the loop variable \<open>z\<close> of the layer loop after \<open>k\<close> passes, each pass
  adding the layer height as the program does, and the layers cut at the first \<open>n\<close> of
  these heights.\<close>

primrec heightAt :: "num \<Rightarrow> num \<Rightarrow> nat \<Rightarrow> num" where
  "heightAt z h 0 = z"
| "heightAt z h (Suc k) = heightAt z h k + h"

definition layersAt :: "Triangle list \<Rightarrow> num \<Rightarrow> num \<Rightarrow> nat \<Rightarrow> Position list list list" where
  "layersAt triangles z h n = map (\<lambda>k. layerContours triangles (heightAt z h k)) [0..<n]"

text \<open>The layer count as the specification gives it,
  \<open>floor((maxZ - (minZ + 0.2)) / layerHeight) + 1\<close>, with \<open>Math.floor\<close>.\<close>

fun Math_floor :: "num \<Rightarrow> num" where
  "Math_floor (Fin a) = Fin (real_of_int \<lfloor>a\<rfloor>)"
| "Math_floor PInf = PInf"
| "Math_floor NInf = NInf"
| "Math_floor NaN = NaN"

definition claimedLayerCount :: "num \<Rightarrow> num \<Rightarrow> num \<Rightarrow> num" where
  "claimedLayerCount minZ maxZ h = Math_floor ((maxZ - (minZ + Fin 0.2)) / h) + Fin 1"

text \<open>What \<open>sliceMesh\<close> returns once the layers are cut: the emission of the layers after
  the preamble, closed by the postamble.\<close>

definition emitResult :: "Formatter \<Rightarrow> SlicerSettings \<Rightarrow> num \<Rightarrow> Position list list list \<Rightarrow> SliceResult" where
  "emitResult F settings minZ layers =
     (let filamentArea = Fin pi * Math_pow (filamentDiameter settings / Fin 2) 2;
          extrusionPerMM = (nozzleDiameter settings * layerHeight settings) / filamentArea;
          st0 = \<lparr>gcodeLines = preamble F settings, visualPath = [],
                 totalFilament = Fin 0, totalTime = Fin 0,
                 currentPos = mkPos (Fin 0) (Fin 0) (Fin 0)\<rparr>;
          st = emitLayers F settings extrusionPerMM minZ st0 layers
      in \<lparr>paths = visualPath st,
          gcode = \<lparr>name = ''output.gcode'', lines = gcodeLines st @ postamble,
                   fileTotalTime = totalTime st,
                   fileTotalFilament = totalFilament st\<rparr>\<rparr>)"

text \<open>A mesh of one triangle whose Z goes from \<open>2^1024 - 2^972\<close> to the largest double
  \<open>2^1024 - 2^971\<close>, and settings with a layer height of \<open>5 * 2^969\<close>.\<close>

definition lowZ :: real where
  "lowZ = maxDouble - 2 ^ 971"

definition tallStep :: real where
  "tallStep = 5 * 2 ^ 969"

definition tallMesh :: "Triangle list" where
  "tallMesh = [\<lparr>p1 = mkPos (Fin 0) (Fin 0) (Fin lowZ), p2 = mkPos (Fin 4) (Fin 0) (Fin lowZ),
                p3 = mkPos (Fin 0) (Fin 6) (Fin maxDouble), normal = mkPos (Fin 0) (Fin 1) (Fin 0)\<rparr>]"

definition tallSettings :: SlicerSettings where
  "tallSettings = exSettings\<lparr>layerHeight := Fin tallStep\<rparr>"

section \<open>Numbers: properties\<close>

lemma maxDouble_bounds: "2 ^ 64 \<le> maxDouble" "maxDouble < overflowAt" "0 < maxDouble"
  by (simp_all add: maxDouble_def overflowAt_def)

lemma ovf_id: "\<bar>r\<bar> \<le> maxDouble \<Longrightarrow> ovf r = Fin r"
  using maxDouble_bounds(2) by (auto simp: ovf_def)

lemma ovf_small: "\<bar>r\<bar> \<le> 2 ^ 64 \<Longrightarrow> ovf r = Fin r"
  using maxDouble_bounds(1) by (intro ovf_id) linarith

lemma isFinite_iff: "isFinite a \<longleftrightarrow> (\<exists>r. a = Fin r \<and> \<bar>r\<bar> \<le> maxDouble)"
  by (cases a) auto

lemma isFinite_small: "\<bar>r\<bar> \<le> 2 ^ 64 \<Longrightarrow> isFinite (Fin r)"
  using maxDouble_bounds(1) by simp

lemma num_less_imp_le: "(a::num) < b \<Longrightarrow> a \<le> b"
  by (cases a; cases b) auto

lemma num_less_not_ge: "(a::num) < b \<Longrightarrow> \<not> b \<le> a"
  by (cases a; cases b) auto

section \<open>Plane intersection: properties\<close>

lemma intersectTriangleZ_none_cases:
  "intersectTriangleZ tri z = None \<longleftrightarrow>
     (pz (p1 tri) \<ge> z \<and> pz (p2 tri) \<ge> z \<and> pz (p3 tri) \<ge> z) \<or>
     (\<not> pz (p1 tri) \<ge> z \<and> \<not> pz (p2 tri) \<ge> z \<and> \<not> pz (p3 tri) \<ge> z)"
  by (simp add: intersectTriangleZ_def Let_def)

text \<open>C2: a vertex counts as above when its Z is at least the target (a vertex on the
  plane is above) and as below otherwise; \<open>intersectTriangleZ\<close> returns none exactly
  when the three vertices are all above or all below, so in particular when all three lie
  strictly above or strictly below the target.\<close>

theorem intersectTriangleZ_none_iff:
  "(intersectTriangleZ tri z = None \<longleftrightarrow>
      (pz (p1 tri) \<ge> z \<and> pz (p2 tri) \<ge> z \<and> pz (p3 tri) \<ge> z) \<or>
      (\<not> pz (p1 tri) \<ge> z \<and> \<not> pz (p2 tri) \<ge> z \<and> \<not> pz (p3 tri) \<ge> z))
   \<and> (z < pz (p1 tri) \<and> z < pz (p2 tri) \<and> z < pz (p3 tri) \<longrightarrow> intersectTriangleZ tri z = None)
   \<and> (pz (p1 tri) < z \<and> pz (p2 tri) < z \<and> pz (p3 tri) < z \<longrightarrow> intersectTriangleZ tri z = None)"
  using intersectTriangleZ_none_cases [of tri z]
  by (auto dest: num_less_imp_le num_less_not_ge)

theorem intersectTriangleZ_none_iff_witness:
  "pz (p1 exTri) < Fin 11 \<and> pz (p2 exTri) < Fin 11 \<and> pz (p3 exTri) < Fin 11
     \<and> intersectTriangleZ exTri (Fin 11) = None"
  using intersectTriangleZ_none_iff [of exTri "Fin 11"]
  by (simp add: exTri_def mkPos_def)

lemma intersectTriangleZ_some_cases:
  assumes "\<not> (pz (p1 tri) \<ge> z \<and> pz (p2 tri) \<ge> z \<and> pz (p3 tri) \<ge> z)"
      and "\<not> (\<not> pz (p1 tri) \<ge> z \<and> \<not> pz (p2 tri) \<ge> z \<and> \<not> pz (p3 tri) \<ge> z)"
  shows "\<exists>iso o1 o2.
           (iso, o1, o2) \<in> {(p1 tri, p2 tri, p3 tri), (p2 tri, p1 tri, p3 tri), (p3 tri, p1 tri, p2 tri)}
         \<and> (pz iso \<ge> z) \<noteq> (pz o1 \<ge> z) \<and> (pz iso \<ge> z) \<noteq> (pz o2 \<ge> z)
         \<and> intersectTriangleZ tri z =
             Some \<lparr>seg_start = intersectEdge z iso o1, seg_end = intersectEdge z iso o2\<rparr>"
  using assms by (auto simp: intersectTriangleZ_def Let_def)

lemma intersectEdge_eq_edgePlanePoint: "intersectEdge z a b = edgePlanePoint z a b"
  by (simp add: intersectEdge_def edgePlanePoint_def Let_def)

lemma half_of_five_tenths: "(Fin 5 - Fin 10) / (Fin 0 - Fin 10) = Fin (1 / 2)"
  by (simp add: minus_num_def ovf_small)

text \<open>C3: when the vertices are not all on one side, the segment returned joins the
  plane points of the two edges from the isolated vertex to the other two (taken in vertex
  order), each computed as the specification words it; a triangle with vertices at
  \<open>Z = 0, 0, 10\<close> cut at \<open>Z = 5\<close> yields, on each of its two crossing edges, the point
  at \<open>t = 1/2\<close> from the vertex at \<open>Z = 10\<close>, with \<open>Z = 5\<close>: the midpoint of the edge,
  as the arithmetic of the numbers computes it.\<close>

theorem intersectTriangleZ_segment:
  "(\<not> (pz (p1 tri) \<ge> z \<and> pz (p2 tri) \<ge> z \<and> pz (p3 tri) \<ge> z) \<and>
    \<not> (\<not> pz (p1 tri) \<ge> z \<and> \<not> pz (p2 tri) \<ge> z \<and> \<not> pz (p3 tri) \<ge> z) \<longrightarrow>
    (\<exists>iso o1 o2.
           (iso, o1, o2) \<in> {(p1 tri, p2 tri, p3 tri), (p2 tri, p1 tri, p3 tri), (p3 tri, p1 tri, p2 tri)}
         \<and> (pz iso \<ge> z) \<noteq> (pz o1 \<ge> z) \<and> (pz iso \<ge> z) \<noteq> (pz o2 \<ge> z)
         \<and> intersectTriangleZ tri z =
             Some \<lparr>seg_start = edgePlanePoint z iso o1, seg_end = edgePlanePoint z iso o2\<rparr>))
   \<and> (pz (p1 tri) = Fin 0 \<and> pz (p2 tri) = Fin 0 \<and> pz (p3 tri) = Fin 10 \<longrightarrow>
      intersectTriangleZ tri (Fin 5) =
        Some \<lparr>seg_start = mkPos (px (p3 tri) + Fin (1 / 2) * (px (p1 tri) - px (p3 tri)))
                               (py (p3 tri) + Fin (1 / 2) * (py (p1 tri) - py (p3 tri))) (Fin 5),
              seg_end = mkPos (px (p3 tri) + Fin (1 / 2) * (px (p2 tri) - px (p3 tri)))
                             (py (p3 tri) + Fin (1 / 2) * (py (p2 tri) - py (p3 tri))) (Fin 5)\<rparr>)"
proof (intro conjI impI)
  assume "\<not> (pz (p1 tri) \<ge> z \<and> pz (p2 tri) \<ge> z \<and> pz (p3 tri) \<ge> z) \<and>
    \<not> (\<not> pz (p1 tri) \<ge> z \<and> \<not> pz (p2 tri) \<ge> z \<and> \<not> pz (p3 tri) \<ge> z)"
  then show "\<exists>iso o1 o2.
           (iso, o1, o2) \<in> {(p1 tri, p2 tri, p3 tri), (p2 tri, p1 tri, p3 tri), (p3 tri, p1 tri, p2 tri)}
         \<and> (pz iso \<ge> z) \<noteq> (pz o1 \<ge> z) \<and> (pz iso \<ge> z) \<noteq> (pz o2 \<ge> z)
         \<and> intersectTriangleZ tri z =
             Some \<lparr>seg_start = edgePlanePoint z iso o1, seg_end = edgePlanePoint z iso o2\<rparr>"
    using intersectTriangleZ_some_cases [of z tri]
    unfolding intersectEdge_eq_edgePlanePoint by blast
next
  assume "pz (p1 tri) = Fin 0 \<and> pz (p2 tri) = Fin 0 \<and> pz (p3 tri) = Fin 10"
  then show "intersectTriangleZ tri (Fin 5) =
        Some \<lparr>seg_start = mkPos (px (p3 tri) + Fin (1 / 2) * (px (p1 tri) - px (p3 tri)))
                               (py (p3 tri) + Fin (1 / 2) * (py (p1 tri) - py (p3 tri))) (Fin 5),
              seg_end = mkPos (px (p3 tri) + Fin (1 / 2) * (px (p2 tri) - px (p3 tri)))
                             (py (p3 tri) + Fin (1 / 2) * (py (p2 tri) - py (p3 tri))) (Fin 5)\<rparr>"
    by (simp add: intersectTriangleZ_def intersectEdge_def Let_def half_of_five_tenths)
qed

theorem intersectTriangleZ_segment_witness:
  "\<not> (pz (p1 exTri) \<ge> Fin 5 \<and> pz (p2 exTri) \<ge> Fin 5 \<and> pz (p3 exTri) \<ge> Fin 5) \<and>
   \<not> (\<not> pz (p1 exTri) \<ge> Fin 5 \<and> \<not> pz (p2 exTri) \<ge> Fin 5 \<and> \<not> pz (p3 exTri) \<ge> Fin 5) \<and>
   pz (p1 exTri) = Fin 0 \<and> pz (p2 exTri) = Fin 0 \<and> pz (p3 exTri) = Fin 10 \<and>
   intersectTriangleZ exTri (Fin 5) =
     Some \<lparr>seg_start = mkPos (Fin 0) (Fin 3) (Fin 5), seg_end = mkPos (Fin 2) (Fin 3) (Fin 5)\<rparr>"
  using intersectTriangleZ_segment [where tri = exTri and z = "Fin 5"]
  by (simp add: exTri_def mkPos_def minus_num_def ovf_small)




section \<open>The extent check of the layer slicer\<close>

lemma min2_less: "z < min2 a b \<Longrightarrow> z < a \<and> z < b"
  by (cases z; cases a; cases b) (auto simp: min2_def split: if_splits)

lemma max2_less: "max2 a b < z \<Longrightarrow> a < z \<and> b < z"
  by (cases z; cases a; cases b) (auto simp: max2_def split: if_splits)

lemma cull_sound:
  assumes "z < Math_min [pz (p1 tri), pz (p2 tri), pz (p3 tri)]
         \<or> z > Math_max [pz (p1 tri), pz (p2 tri), pz (p3 tri)]"
  shows "intersectTriangleZ tri z = None"
proof -
  from assms consider
    (lo) "z < pz (p1 tri)" "z < pz (p2 tri)" "z < pz (p3 tri)"
  | (hi) "pz (p1 tri) < z" "pz (p2 tri) < z" "pz (p3 tri) < z"
    by (auto simp: Math_min_def Math_max_def dest!: min2_less max2_less)
  then show ?thesis
    by cases (auto simp: intersectTriangleZ_none_cases dest: num_less_imp_le num_less_not_ge)
qed

lemma cull_step:
  "(if z < Math_min [pz (p1 tri), pz (p2 tri), pz (p3 tri)]
         \<or> z > Math_max [pz (p1 tri), pz (p2 tri), pz (p3 tri)] then segs
    else (case intersectTriangleZ tri z of None \<Rightarrow> segs | Some seg \<Rightarrow> segs @ [seg]))
   = (case intersectTriangleZ tri z of None \<Rightarrow> segs | Some seg \<Rightarrow> segs @ [seg])"
  using cull_sound [of z tri] by auto

text \<open>C5: a target outside the Z extent of a triangle makes \<open>intersectTriangleZ\<close>
  return none, so the segments collected with the extent check are those collected when
  every triangle is intersected.\<close>

theorem layerSegments_cull:
  "(z < Math_min [pz (p1 tri), pz (p2 tri), pz (p3 tri)]
         \<or> z > Math_max [pz (p1 tri), pz (p2 tri), pz (p3 tri)] \<longrightarrow> intersectTriangleZ tri z = None)
   \<and> layerSegments triangles z = allSegments triangles z"
  using cull_sound [of z tri]
  by (simp add: layerSegments_def allSegments_def Let_def cull_step)

theorem layerSegments_cull_witness:
  "Fin 11 > Math_max [pz (p1 exTri), pz (p2 exTri), pz (p3 exTri)]
   \<and> intersectTriangleZ exTri (Fin 11) = None
   \<and> layerSegments [exTri, inPlaneTri] (Fin 11) = allSegments [exTri, inPlaneTri] (Fin 11)"
  using layerSegments_cull [of "Fin 11" exTri "[exTri, inPlaneTri]"]
  by (simp add: exTri_def mkPos_def Math_max_def max2_def)

section \<open>Contour stitching: properties\<close>

lemma chainLoop_Nil: "chainLoop [] loops = loops"
  by (subst chainLoop.simps) simp

lemma grownLoops_Nil: "grownLoops [] = []"
  by (subst grownLoops.simps) simp

lemma chainLoop_grownLoops:
  "chainLoop pool loops = loops @ filter (\<lambda>loop. length loop > 2) (map closeLoop (grownLoops pool))"
proof (induction pool loops rule: chainLoop.induct)
  case (1 pool loops)
  show ?case
  proof (cases "length pool > 0")
    case False
    then show ?thesis by (simp add: chainLoop_Nil grownLoops_Nil)
  next
    case True
    define grown where "grown = grow [seg_start (last pool), seg_end (last pool)] (butlast pool)"
    define loop where "loop = closeLoop (fst grown)"
    have IH: "chainLoop (snd grown) (if length loop > 2 then loops @ [loop] else loops)
        = (if length loop > 2 then loops @ [loop] else loops)
          @ filter (\<lambda>loop. length loop > 2) (map closeLoop (grownLoops (snd grown)))"
      using "1.IH" [OF True refl grown_def loop_def] .
    have c: "chainLoop pool loops = chainLoop (snd grown) (if length loop > 2 then loops @ [loop] else loops)"
      using True by (subst chainLoop.simps) (simp add: Let_def grown_def loop_def)
    have g: "grownLoops pool = fst grown # grownLoops (snd grown)"
      using True by (subst grownLoops.simps) (simp add: Let_def grown_def)
    show ?thesis unfolding c IH g by (simp add: loop_def)
  qed
qed

lemma grow_fst: "loop \<noteq> [] \<Longrightarrow> length loop \<le> length (fst (grow loop pool)) \<and> hd (fst (grow loop pool)) = hd loop"
proof (induction loop pool rule: grow.induct)
  case (1 loop pool)
  show ?case
  proof (cases "findIndex (\<lambda>seg.
             Math_hypot (px (seg_start seg) - px (last loop)) (py (seg_start seg) - py (last loop)) < EPSILON \<or>
             Math_hypot (px (seg_end seg) - px (last loop)) (py (seg_end seg) - py (last loop)) < EPSILON) pool")
    case None
    then show ?thesis by (subst (1 2) grow.simps) simp
  next
    case (Some i)
    define pool' where "pool' = take i pool @ drop (Suc i) pool"
    define m where "m \<longleftrightarrow> Math_hypot (px (seg_start (pool ! i)) - px (last loop))
        (py (seg_start (pool ! i)) - py (last loop)) < EPSILON"
    have unfold: "grow loop pool =
        (if m then grow (loop @ [seg_end (pool ! i)]) pool'
         else grow (loop @ [seg_start (pool ! i)]) pool')"
      by (subst grow.simps) (simp add: Some Let_def pool'_def m_def)
    show ?thesis
    proof (cases m)
      case True
      then have "length (loop @ [seg_end (pool ! i)]) \<le> length (fst (grow (loop @ [seg_end (pool ! i)]) pool'))
          \<and> hd (fst (grow (loop @ [seg_end (pool ! i)]) pool')) = hd (loop @ [seg_end (pool ! i)])"
        using "1.IH"(1) [OF refl Some refl refl refl] unfolding pool'_def m_def by simp
      then show ?thesis using True unfold "1.prems" by simp
    next
      case False
      then have "length (loop @ [seg_start (pool ! i)]) \<le> length (fst (grow (loop @ [seg_start (pool ! i)]) pool'))
          \<and> hd (fst (grow (loop @ [seg_start (pool ! i)]) pool')) = hd (loop @ [seg_start (pool ! i)])"
        using "1.IH"(2) [OF refl Some refl refl refl] unfolding pool'_def m_def by simp
      then show ?thesis using False unfold "1.prems" by simp
    qed
  qed
qed

lemma grownLoops_length: "g \<in> set (grownLoops pool) \<Longrightarrow> 2 \<le> length g"
proof (induction pool rule: grownLoops.induct)
  case (1 pool)
  show ?case
  proof (cases "length pool > 0")
    case False
    then show ?thesis using "1.prems" by (simp add: grownLoops_Nil)
  next
    case True
    define grown where "grown = grow [seg_start (last pool), seg_end (last pool)] (butlast pool)"
    have g: "grownLoops pool = fst grown # grownLoops (snd grown)"
      using True by (subst grownLoops.simps) (simp add: Let_def grown_def)
    have "2 \<le> length (fst grown)"
      using grow_fst [of "[seg_start (last pool), seg_end (last pool)]" "butlast pool"]
      by (simp add: grown_def)
    then show ?thesis
      using "1.prems" "1.IH" [OF True refl grown_def] unfolding g by auto
  qed
qed

lemma closeLoop_snap:
  assumes "2 \<le> length g" "near2 (hd g) (last g)"
  shows "closeLoop g = butlast g @ [hd g]" "last (closeLoop g) = hd g" "hd (closeLoop g) = hd g"
proof -
  have ne: "g \<noteq> []" using assms(1) by auto
  have h: "g ! 0 = hd g" using ne by (simp add: hd_conv_nth)
  have c: "closeLoop g = g[length g - 1 := hd g]"
    using assms(2) by (simp add: closeLoop_def Let_def near2_def h)
  show 1: "closeLoop g = butlast g @ [hd g]"
    unfolding c using ne by (induction g rule: rev_induct) auto
  show "last (closeLoop g) = hd g" unfolding 1 by simp
  show "hd (closeLoop g) = hd g"
    unfolding 1 using assms(1) by (cases g) (auto split: if_splits)
qed

lemma ovf_sqrt_cases:
  assumes "0 \<le> s"
  shows "ovf (sqrt s) = PInf \<and> overflowAt \<le> sqrt s
   \<or> ovf (sqrt s) = Fin maxDouble \<and> maxDouble < sqrt s
   \<or> ovf (sqrt s) = Fin (sqrt s) \<and> sqrt s \<le> maxDouble"
proof -
  have "0 \<le> sqrt s" using assms by simp
  then have "\<not> sqrt s \<le> - overflowAt" "\<not> sqrt s < - maxDouble"
    using maxDouble_bounds by linarith+
  then show ?thesis unfolding ovf_def by auto
qed

lemma hypot_less:
  assumes "0 < e" "e \<le> 2 ^ 64"
  shows "Math_hypot (Fin a) (Fin b) < Fin e \<longleftrightarrow> a * a + b * b < e * e"
proof -
  have nn: "0 \<le> a * a + b * b" by simp
  have e: "e < maxDouble" "sqrt (e * e) = e"
    using assms maxDouble_def by (simp_all add: maxDouble_def)
  have iff: "sqrt (a * a + b * b) < e \<longleftrightarrow> a * a + b * b < e * e"
    using real_sqrt_less_iff [of "a * a + b * b" "e * e"] e(2) by simp
  show ?thesis
    using ovf_sqrt_cases [OF nn] e(1) iff maxDouble_bounds
    by auto
qed

lemma hypot_le:
  assumes "0 \<le> e" "e \<le> 2 ^ 64"
  shows "Math_hypot (Fin a) (Fin b) \<le> Fin e \<longleftrightarrow> a * a + b * b \<le> e * e"
proof -
  have nn: "0 \<le> a * a + b * b" by simp
  have e: "e < maxDouble" "sqrt (e * e) = e"
    using assms by (simp_all add: maxDouble_def)
  have iff: "sqrt (a * a + b * b) \<le> e \<longleftrightarrow> a * a + b * b \<le> e * e"
    using real_sqrt_le_iff [of "a * a + b * b" "e * e"] e(2) by simp
  show ?thesis
    using ovf_sqrt_cases [OF nn] e(1) iff maxDouble_bounds
    by auto
qed

lemma triSegs_grown:
  "grownLoops triSegs = [[mkPos (Fin 1) (Fin 1) (Fin 1), mkPos (Fin 0.03) (Fin 0.03) (Fin 1),
      mkPos (Fin 1) (Fin 0) (Fin 1), mkPos (Fin 1.03) (Fin 1.04) (Fin 1)]]"
  by (simp add: triSegs_def grownLoops.simps grow.simps Let_def mkPos_def minus_num_def
      EPSILON_def hypot_less ovf_small del: Math_hypot.simps)

text \<open>C4: every loop that \<open>chainSegments\<close> returns has more than two points; the
  loops returned are the grown loops after the closure check that are longer than two; and
  a grown loop whose first and last points lie closer than \<open>2 * EPSILON\<close> in X and Y
  comes out with its last point equal to its first, the other points unchanged.\<close>

theorem chainSegments_loops:
  "(\<forall>loop \<in> set (chainSegments segments). length loop > 2)
   \<and> chainSegments segments =
       filter (\<lambda>loop. length loop > 2) (map closeLoop (grownLoops segments))
   \<and> (\<forall>g \<in> set (grownLoops segments). near2 (hd g) (last g) \<longrightarrow>
         last (closeLoop g) = hd (closeLoop g) \<and> hd (closeLoop g) = hd g
         \<and> butlast (closeLoop g) = butlast g)"
proof (intro conjI ballI impI)
  show eq: "chainSegments segments =
       filter (\<lambda>loop. length loop > 2) (map closeLoop (grownLoops segments))"
    by (simp add: chainSegments_def chainLoop_grownLoops)
  fix loop assume "loop \<in> set (chainSegments segments)"
  then show "length loop > 2" unfolding eq by simp
next
  fix g assume g: "g \<in> set (grownLoops segments)" and n: "near2 (hd g) (last g)"
  have len: "2 \<le> length g" using g by (rule grownLoops_length)
  show "last (closeLoop g) = hd (closeLoop g)"
    using closeLoop_snap(2,3) [OF len n] by simp
  show "hd (closeLoop g) = hd g"
    using closeLoop_snap(3) [OF len n] .
  show "butlast (closeLoop g) = butlast g"
    using closeLoop_snap(1) [OF len n] by simp
qed

theorem chainSegments_loops_witness:
  "grownLoops triSegs = [[mkPos (Fin 1) (Fin 1) (Fin 1), mkPos (Fin 0.03) (Fin 0.03) (Fin 1),
      mkPos (Fin 1) (Fin 0) (Fin 1), mkPos (Fin 1.03) (Fin 1.04) (Fin 1)]]
   \<and> near2 (mkPos (Fin 1) (Fin 1) (Fin 1)) (mkPos (Fin 1.03) (Fin 1.04) (Fin 1))
   \<and> chainSegments triSegs = [[mkPos (Fin 1) (Fin 1) (Fin 1), mkPos (Fin 0.03) (Fin 0.03) (Fin 1),
      mkPos (Fin 1) (Fin 0) (Fin 1), mkPos (Fin 1) (Fin 1) (Fin 1)]]"
proof -
  have n: "near2 (mkPos (Fin 1) (Fin 1) (Fin 1)) (mkPos (Fin 1.03) (Fin 1.04) (Fin 1))"
    by (simp add: near2_def mkPos_def minus_num_def EPSILON_def hypot_less ovf_small del: Math_hypot.simps)
  show ?thesis
    using chainSegments_loops [of triSegs] n triSegs_grown
    by (simp add: closeLoop_def Let_def mkPos_def minus_num_def
      EPSILON_def hypot_less ovf_small del: Math_hypot.simps)
qed

section \<open>Mesh decoding: properties\<close>

lemma getFloat32_cases:
  "getFloat32 buffer off =
     (if off + 4 \<le> length buffer then Inr (decodeFloat32 (projr (getUint32 buffer off)))
      else Inl RangeError)"
  by (simp add: getFloat32_def getUint32_def bindE_def)

lemma readVec_cases:
  "readVec buffer off =
     (if off + 12 \<le> length buffer then Inr (projr (readVec buffer off)) else Inl RangeError)"
  by (simp add: readVec_def getFloat32_cases bindE_def)

lemma readTriangle_cases:
  "readTriangle buffer off =
     (if off + 48 \<le> length buffer then Inr (projr (readTriangle buffer off)) else Inl RangeError)"
proof (cases "off + 48 \<le> length buffer")
  case True
  then have "off + 12 \<le> length buffer" "off + 12 + 12 \<le> length buffer"
    "off + 24 + 12 \<le> length buffer" "off + 36 + 12 \<le> length buffer" by simp_all
  then obtain a b c d where "readVec buffer off = Inr a" "readVec buffer (off + 12) = Inr b"
    "readVec buffer (off + 24) = Inr c" "readVec buffer (off + 36) = Inr d"
    using readVec_cases by metis
  then show ?thesis using True by (simp add: readTriangle_def bindE_def)
next
  case False
  consider "\<not> off + 12 \<le> length buffer" | "off + 12 \<le> length buffer" "\<not> off + 12 + 12 \<le> length buffer"
    | "off + 12 \<le> length buffer" "off + 12 + 12 \<le> length buffer" "\<not> off + 24 + 12 \<le> length buffer"
    | "off + 12 \<le> length buffer" "off + 12 + 12 \<le> length buffer" "off + 24 + 12 \<le> length buffer"
       "\<not> off + 36 + 12 \<le> length buffer"
    using False by linarith
  then show ?thesis
  proof cases
    case 1
    then have "readVec buffer off = Inl RangeError" using readVec_cases by metis
    then show ?thesis using False by (simp add: readTriangle_def bindE_def)
  next
    case 2
    then obtain a where "readVec buffer off = Inr a" "readVec buffer (off + 12) = Inl RangeError"
      using readVec_cases by metis
    then show ?thesis using False by (simp add: readTriangle_def bindE_def)
  next
    case 3
    then obtain a b where "readVec buffer off = Inr a" "readVec buffer (off + 12) = Inr b"
      "readVec buffer (off + 24) = Inl RangeError"
      using readVec_cases by metis
    then show ?thesis using False by (simp add: readTriangle_def bindE_def)
  next
    case 4
    then obtain a b c where "readVec buffer off = Inr a" "readVec buffer (off + 12) = Inr b"
      "readVec buffer (off + 24) = Inr c" "readVec buffer (off + 36) = Inl RangeError"
      using readVec_cases by metis
    then show ?thesis using False by (simp add: readTriangle_def bindE_def)
  qed
qed

lemma parseLoop_ok:
  "n = 0 \<or> off + 50 * n \<le> length buffer + 2 \<Longrightarrow>
   parseLoop buffer off n acc = Inr (acc @ map (\<lambda>i. projr (readTriangle buffer (off + 50 * i))) [0..<n])"
proof (induction n arbitrary: off acc)
  case 0
  then show ?case by simp
next
  case (Suc n)
  then have here: "off + 48 \<le> length buffer" by simp
  have rest: "n = 0 \<or> (off + 50) + 50 * n \<le> length buffer + 2" using Suc.prems by simp
  have r: "readTriangle buffer off = Inr (projr (readTriangle buffer off))"
    using here readTriangle_cases [of buffer off] by simp
  have m: "map (\<lambda>i. projr (readTriangle buffer (off + 50 * i))) [0..<Suc n]
      = projr (readTriangle buffer off) # map (\<lambda>i. projr (readTriangle buffer (off + 50 + 50 * i))) [0..<n]"
    by (simp add: upt_conv_Cons map_Suc_upt [symmetric] add.assoc del: upt_Suc)
  show ?case
    unfolding m
    by (subst parseLoop.simps, subst r) (simp add: bindE_def Suc.IH [OF rest])
qed

lemma parseLoop_fail:
  "n \<noteq> 0 \<Longrightarrow> \<not> off + 50 * n \<le> length buffer + 2 \<Longrightarrow> parseLoop buffer off n acc = Inl RangeError"
proof (induction n arbitrary: off acc)
  case 0
  then show ?case by simp
next
  case (Suc n)
  show ?case
  proof (cases "off + 48 \<le> length buffer")
    case False
    then have "readTriangle buffer off = Inl RangeError"
      using readTriangle_cases [of buffer off] by simp
    then show ?thesis by (simp add: bindE_def)
  next
    case True
    then have r: "readTriangle buffer off = Inr (projr (readTriangle buffer off))"
      using readTriangle_cases [of buffer off] by simp
    have n: "n \<noteq> 0" using True Suc.prems(2) by (cases n) auto
    have "\<not> (off + 50) + 50 * n \<le> length buffer + 2" using Suc.prems(2) by simp
    from Suc.IH [OF n this] show ?thesis
      by (subst parseLoop.simps, subst r) (simp add: bindE_def)
  qed
qed

lemma parseSTL_cases:
  assumes "getUint32 buffer 80 = Inr count"
  shows "parseSTL buffer =
     (if min (unat count) 25000 = 0 \<or> 84 + 50 * min (unat count) 25000 \<le> length buffer + 2
      then Inr (map (\<lambda>i. projr (readTriangle buffer (84 + 50 * i))) [0..<min (unat count) 25000])
      else Inl RangeError)"
proof (cases "min (unat count) 25000 = 0 \<or> 84 + 50 * min (unat count) 25000 \<le> length buffer + 2")
  case True
  show ?thesis
    using parseLoop_ok [OF True, of "[]"] True
    by (simp add: parseSTL_def assms bindE_def Let_def)
next
  case False
  then have "min (unat count) 25000 \<noteq> 0" "\<not> 84 + 50 * min (unat count) 25000 \<le> length buffer + 2"
    by simp_all
  from parseLoop_fail [OF this, of "[]"] False show ?thesis
    by (simp add: parseSTL_def assms bindE_def Let_def)
qed

lemma readTriangle_at:
  assumes "i < n" "n = 0 \<or> 84 + 50 * n \<le> length buffer + 2"
  shows "readTriangle buffer (84 + 50 * i) = Inr (projr (readTriangle buffer (84 + 50 * i)))"
proof -
  have "84 + 50 * i + 48 \<le> length buffer" using assms by auto
  then show ?thesis using readTriangle_cases [of buffer "84 + 50 * i"] by simp
qed

text \<open>C7, as amended: when the buffer holds the count at offset 80, \<open>parseSTL\<close>
  returns the first \<open>min(count, 25000)\<close> records of 50 bytes in file order provided the
  buffer holds them (the last without its two trailing bytes), and raises \<open>RangeError\<close>
  otherwise; whatever it returns has \<open>min(count, 25000)\<close> triangles, 25000 for a
  declared count of 30000.\<close>

theorem parseSTL_records:
  assumes "getUint32 buffer 80 = Inr count"
  shows "(min (unat count) 25000 = 0 \<or> 84 + 50 * min (unat count) 25000 \<le> length buffer + 2 \<longrightarrow>
            (\<exists>ts. parseSTL buffer = Inr ts \<and> length ts = min (unat count) 25000
               \<and> (\<forall>i < length ts. readTriangle buffer (84 + 50 * i) = Inr (ts ! i))))
       \<and> (\<not> (min (unat count) 25000 = 0 \<or> 84 + 50 * min (unat count) 25000 \<le> length buffer + 2) \<longrightarrow>
            parseSTL buffer = Inl RangeError)
       \<and> (\<forall>ts. parseSTL buffer = Inr ts \<longrightarrow> length ts = min (unat count) 25000 \<and> length ts \<le> 25000)
       \<and> (\<forall>ts. count = 30000 \<and> parseSTL buffer = Inr ts \<longrightarrow> length ts = 25000)"
proof (intro conjI impI allI)
  assume ok: "min (unat count) 25000 = 0 \<or> 84 + 50 * min (unat count) 25000 \<le> length buffer + 2"
  let ?ts = "map (\<lambda>i. projr (readTriangle buffer (84 + 50 * i))) [0..<min (unat count) 25000]"
  have "parseSTL buffer = Inr ?ts" using parseSTL_cases [OF assms] ok by simp
  moreover have "length ?ts = min (unat count) 25000" by simp
  moreover have "\<forall>i < length ?ts. readTriangle buffer (84 + 50 * i) = Inr (?ts ! i)"
    using readTriangle_at [OF _ ok] by simp
  ultimately show "\<exists>ts. parseSTL buffer = Inr ts \<and> length ts = min (unat count) 25000
               \<and> (\<forall>i < length ts. readTriangle buffer (84 + 50 * i) = Inr (ts ! i))"
    by blast
next
  assume "\<not> (min (unat count) 25000 = 0 \<or> 84 + 50 * min (unat count) 25000 \<le> length buffer + 2)"
  then show "parseSTL buffer = Inl RangeError" using parseSTL_cases [OF assms] by simp
next
  fix ts assume "parseSTL buffer = Inr ts"
  then have "length ts = min (unat count) 25000"
    using parseSTL_cases [OF assms] by (auto split: if_splits)
  then show "length ts = min (unat count) 25000" "length ts \<le> 25000" by simp_all
next
  fix ts assume "count = 30000 \<and> parseSTL buffer = Inr ts"
  then show "length ts = 25000"
    using parseSTL_cases [OF assms] by (auto split: if_splits)
qed

lemma oneRecordBuffer_count: "getUint32 oneRecordBuffer 80 = Inr 1"
  by (simp add: getUint32_def oneRecordBuffer_def nth_append)

lemma cappedBuffer_count: "getUint32 cappedBuffer 80 = Inr 30000"
  by (simp add: getUint32_def cappedBuffer_def nth_append)

lemma truncatedBuffer_count: "getUint32 truncatedBuffer 80 = Inr 1"
  by (simp add: getUint32_def truncatedBuffer_def nth_append)

theorem parseSTL_records_witness:
  "getUint32 oneRecordBuffer 80 = Inr 1 \<and> length oneRecordBuffer = 132
   \<and> (\<exists>ts. parseSTL oneRecordBuffer = Inr ts \<and> length ts = 1
         \<and> readTriangle oneRecordBuffer 84 = Inr (ts ! 0))
   \<and> getUint32 cappedBuffer 80 = Inr 30000 \<and> length cappedBuffer = 1250082
   \<and> (\<exists>ts. parseSTL cappedBuffer = Inr ts \<and> length ts = 25000)
   \<and> getUint32 truncatedBuffer 80 = Inr 1 \<and> length truncatedBuffer = 84
   \<and> parseSTL truncatedBuffer = Inl RangeError"
proof -
  have len: "length oneRecordBuffer = 132" by (simp add: oneRecordBuffer_def)
  have "\<exists>ts. parseSTL oneRecordBuffer = Inr ts \<and> length ts = 1
         \<and> (\<forall>i < length ts. readTriangle oneRecordBuffer (84 + 50 * i) = Inr (ts ! i))"
    using parseSTL_records [OF oneRecordBuffer_count] len by simp
  then obtain ts where ts: "parseSTL oneRecordBuffer = Inr ts" "length ts = 1"
      "\<forall>i < length ts. readTriangle oneRecordBuffer (84 + 50 * i) = Inr (ts ! i)"
    by blast
  from ts(3) ts(2) have "readTriangle oneRecordBuffer (84 + 50 * 0) = Inr (ts ! 0)"
    by (metis zero_less_one)
  then have one: "\<exists>ts. parseSTL oneRecordBuffer = Inr ts \<and> length ts = 1
         \<and> readTriangle oneRecordBuffer 84 = Inr (ts ! 0)"
    using ts(1,2) by auto
  have lenc: "length cappedBuffer = 1250082" by (simp add: cappedBuffer_def)
  have capped: "\<exists>ts. parseSTL cappedBuffer = Inr ts \<and> length ts = 25000"
    using parseSTL_records [OF cappedBuffer_count] lenc by auto
  have lent: "length truncatedBuffer = 84" by (simp add: truncatedBuffer_def)
  have trunc: "parseSTL truncatedBuffer = Inl RangeError"
    using parseSTL_records [OF truncatedBuffer_count] lent by simp
  show ?thesis
    using one capped trunc len lenc lent oneRecordBuffer_count cappedBuffer_count
      truncatedBuffer_count by blast
qed

text \<open>C7 as stated fails: on a buffer whose header declares one triangle and that ends
  after the count, \<open>parseSTL\<close> decodes no record and raises \<open>RangeError\<close>.\<close>

theorem parseSTL_truncated:
  "getUint32 truncatedBuffer 80 = Inr 1 \<and> parseSTL truncatedBuffer = Inl RangeError"
proof -
  show ?thesis
    using parseSTL_cases [OF truncatedBuffer_count] truncatedBuffer_count
    by (simp add: truncatedBuffer_def)
qed

section \<open>Layer slicing: properties\<close>

text \<open>C8: when \<open>minZ + 0.2 > maxZ\<close> for the bounds of the transformed mesh,
  \<open>sliceMesh\<close> produces no layer, and returns the six lines of the preamble followed by
  the three of the postamble, both totals zero and no visualization point.\<close>

theorem sliceMesh_no_layers:
  assumes "getZBounds (map (\<lambda>t. applyTransform t transform) rawTriangles) = (minZ, maxZ)"
    and "minZ + Fin 0.2 > maxZ"
  shows "sliceLoop (map (\<lambda>t. applyTransform t transform) rawTriangles) (layerHeight settings)
           maxZ (minZ + Fin 0.2) [] = Some []
     \<and> sliceMesh F rawTriangles transform settings =
         Some \<lparr>paths = [],
               gcode = \<lparr>name = ''output.gcode'',
                   lines = [''; Generated by DeltaSim Pro Slicer'',
                            ''M104 S'' @ numToString F (temperature settings) @ '' ; Set Temp'',
                            ''G28 ; Home all axes'',
                            ''M109 S'' @ numToString F (temperature settings) @ '' ; Wait for Temp'',
                            ''G90 ; Absolute positioning'',
                            ''G92 E0 ; Reset Extruder'',
                            ''M104 S0 ; Turn off heater'',
                            ''G28 ; Home'',
                            ''M84 ; Disable motors''],
                   fileTotalTime = Fin 0, fileTotalFilament = Fin 0\<rparr>\<rparr>"
proof -
  have n: "\<not> minZ + Fin 0.2 \<le> maxZ" using assms(2) by (rule num_less_not_ge)
  have run: "sliceLoop (map (\<lambda>t. applyTransform t transform) rawTriangles) (layerHeight settings)
           maxZ (minZ + Fin 0.2) [] = Some []"
    using n by (subst sliceLoop.simps) simp
  show ?thesis
    using run by (simp add: sliceMesh_def assms(1) Let_def emitLayers_def enumerate_eq_zip
        preamble_def postamble_def)
qed

lemma flatTri_bounds:
  "getZBounds (map (\<lambda>t. applyTransform t idTransform) [flatTri]) = (Fin 0, Fin 0)"
  by (simp add: getZBounds_def applyTransform_def idTransform_def flatTri_def mkPos_def
      Math_min_def Math_max_def min2_def max2_def Let_def ovf_small)

theorem sliceMesh_no_layers_witness:
  "getZBounds (map (\<lambda>t. applyTransform t idTransform) [flatTri]) = (Fin 0, Fin 0)
   \<and> Fin 0 + Fin 0.2 > Fin 0
   \<and> paths (the (sliceMesh exFormatter [flatTri] idTransform exSettings)) = []
   \<and> length (lines (gcode (the (sliceMesh exFormatter [flatTri] idTransform exSettings)))) = 9
   \<and> fileTotalTime (gcode (the (sliceMesh exFormatter [flatTri] idTransform exSettings))) = Fin 0
   \<and> fileTotalFilament (gcode (the (sliceMesh exFormatter [flatTri] idTransform exSettings))) = Fin 0"
proof -
  have g: "Fin 0 + Fin 0.2 > Fin 0" by (simp add: ovf_small)
  show ?thesis
    using sliceMesh_no_layers [OF flatTri_bounds g, of exSettings exFormatter] flatTri_bounds g
    by simp
qed

section \<open>Toolpath emission: properties\<close>

lemma num_le_trans: "(a::num) \<le> b \<Longrightarrow> b \<le> c \<Longrightarrow> a \<le> c"
  by (cases a; cases b; cases c) auto

lemma num_le_not_gt: "(a::num) \<le> b \<Longrightarrow> \<not> b < a"
  by (cases a; cases b) auto

lemma goodState_okState: "goodState st \<Longrightarrow> okState st"
  by (simp add: goodState_def okState_def upward_def finitePos_def)

lemma totalsLe_refl: "okState st \<Longrightarrow> totalsLe st st"
  by (auto simp: okState_def upward_def totalsLe_def isFinite_iff)

lemma totalsLe_trans: "totalsLe a b \<Longrightarrow> totalsLe b c \<Longrightarrow> totalsLe a c"
  unfolding totalsLe_def by (blast intro: num_le_trans)

lemma ovf_nonnegUp: "0 \<le> r \<Longrightarrow> nonnegUp (ovf r)"
  using maxDouble_bounds by (auto simp: ovf_def nonnegUp_def)

lemma ovf_notNaN: "ovf r \<noteq> NaN"
  by (simp add: ovf_def)

lemma add_upward:
  assumes "upward a" "nonnegUp x"
  shows "upward (a + x) \<and> a \<le> a + x"
proof (cases "a = PInf")
  case True
  then show ?thesis using assms(2) by (auto simp: nonnegUp_def upward_def)
next
  case False
  then obtain t where t: "a = Fin t" "\<bar>t\<bar> \<le> maxDouble"
    using assms(1) by (auto simp: upward_def isFinite_iff)
  show ?thesis
  proof (cases "x = PInf")
    case True
    then show ?thesis by (simp add: t upward_def)
  next
    case False
    then obtain r where r: "x = Fin r" "0 \<le> r" using assms(2) by (auto simp: nonnegUp_def)
    have "- maxDouble \<le> t + r" "t \<le> t + r" "t \<le> maxDouble" using t(2) r(2) by linarith+
    then show ?thesis
      using maxDouble_bounds by (auto simp: t r upward_def ovf_def)
  qed
qed

lemma nonnegUp_times: "nonnegUp d \<Longrightarrow> 0 < er \<Longrightarrow> nonnegUp (d * Fin er)"
  by (auto simp: nonnegUp_def [of d] intro!: ovf_nonnegUp) (simp add: nonnegUp_def)

lemma nonnegUp_divide: "nonnegUp d \<Longrightarrow> 0 < v \<Longrightarrow> nonnegUp (d / Fin v)"
  by (auto simp: nonnegUp_def [of d] intro!: ovf_nonnegUp) (simp add: nonnegUp_def)

lemma hypot_nonnegUp: "a \<noteq> NaN \<Longrightarrow> b \<noteq> NaN \<Longrightarrow> nonnegUp (Math_hypot a b)"
proof (cases a; cases b)
  fix x y assume "a = Fin x" "b = Fin y"
  then show ?thesis using ovf_nonnegUp [of "sqrt (x * x + y * y)"] by simp
qed (simp_all add: nonnegUp_def)

lemma diff_notNaN: "isFinite b \<Longrightarrow> a \<noteq> NaN \<Longrightarrow> a - b \<noteq> NaN"
  by (cases a) (auto simp: isFinite_iff minus_num_def ovf_notNaN)

lemma abs_nonnegUp: "isFinite b \<Longrightarrow> a \<noteq> NaN \<Longrightarrow> nonnegUp \<bar>a - b\<bar>"
proof (cases a)
  case (Fin l)
  assume "isFinite b"
  then obtain c where c: "b = Fin c" by (auto simp: isFinite_iff)
  have "\<bar>a - b\<bar> = \<bar>ovf (l - c)\<bar>" by (simp add: Fin c minus_num_def)
  also have "nonnegUp \<dots>"
    using maxDouble_bounds by (auto simp: ovf_def nonnegUp_def)
  finally show ?thesis .
qed (auto simp: isFinite_iff minus_num_def nonnegUp_def)

lemma dist_nonnegUp:
  assumes "okState st" "isFinite (px p)" "isFinite (py p)"
  shows "nonnegUp (Math_hypot (px p - px (currentPos st)) (py p - py (currentPos st)))"
proof -
  have "isFinite (px (currentPos st))" "isFinite (py (currentPos st))"
    using assms(1) by (simp_all add: okState_def)
  moreover have "px p \<noteq> NaN" "py p \<noteq> NaN" using assms(2,3) by (auto simp: isFinite_iff)
  ultimately show ?thesis by (intro hypot_nonnegUp diff_notNaN)
qed

lemma extrudeTo_mono:
  assumes "okState st" "isFinite (px p)" "isFinite (py p)"
    and "printSpeed settings = Fin vp" "0 < vp" "e = Fin er" "0 < er"
  shows "okState (extrudeTo F settings e layerZ st p) \<and> totalsLe st (extrudeTo F settings e layerZ st p)"
proof -
  define d where "d = Math_hypot (px p - px (currentPos st)) (py p - py (currentPos st))"
  have d: "nonnegUp d" unfolding d_def by (rule dist_nonnegUp [OF assms(1-3)])
  have up: "upward (totalFilament st)" "upward (totalTime st)"
    using assms(1) by (simp_all add: okState_def)
  have f: "upward (totalFilament st + d * e) \<and> totalFilament st \<le> totalFilament st + d * e"
    unfolding assms(6) by (intro add_upward up nonnegUp_times d assms(7))
  have t: "upward (totalTime st + (d / printSpeed settings) * Fin 60)
      \<and> totalTime st \<le> totalTime st + (d / printSpeed settings) * Fin 60"
    unfolding assms(4) by (intro add_upward up nonnegUp_times nonnegUp_divide d assms(5)) simp
  show ?thesis
    using f t assms(2,3)
    by (simp add: extrudeTo_def Let_def d_def [symmetric] okState_def totalsLe_def)
qed

lemma travelTo_mono:
  assumes "okState st" "isFinite (px p)" "isFinite (py p)"
    and "travelSpeed settings = Fin vt" "0 < vt"
  shows "okState (travelTo F settings layerZ st p) \<and> totalsLe st (travelTo F settings layerZ st p)"
proof -
  define d where "d = Math_hypot (px p - px (currentPos st)) (py p - py (currentPos st))"
  have d: "nonnegUp d" unfolding d_def by (rule dist_nonnegUp [OF assms(1-3)])
  have up: "upward (totalFilament st)" "upward (totalTime st)"
    using assms(1) by (simp_all add: okState_def)
  have t: "upward (totalTime st + (d / travelSpeed settings) * Fin 60)
      \<and> totalTime st \<le> totalTime st + (d / travelSpeed settings) * Fin 60"
    unfolding assms(4) by (intro add_upward up nonnegUp_times nonnegUp_divide d assms(5)) simp
  have r: "totalFilament st \<le> totalFilament st"
    using totalsLe_refl [OF assms(1)] by (simp add: totalsLe_def)
  show ?thesis
    using t r assms(1,2,3) totalsLe_refl [OF assms(1)]
    by (simp add: travelTo_def Let_def d_def [symmetric] okState_def totalsLe_def)
qed

lemma layerMove_mono:
  assumes "okState st" "isFinite (pz (currentPos st))" "layerZ \<noteq> NaN"
    and "travelSpeed settings = Fin vt" "0 < vt"
  shows "okState (layerMove F settings layerZ index st) \<and> totalsLe st (layerMove F settings layerZ index st)"
proof -
  have up: "upward (totalFilament st)" "upward (totalTime st)"
    using assms(1) by (simp_all add: okState_def)
  have t: "upward (totalTime st + (\<bar>layerZ - pz (currentPos st)\<bar> / travelSpeed settings) * Fin 60)
      \<and> totalTime st \<le> totalTime st + (\<bar>layerZ - pz (currentPos st)\<bar> / travelSpeed settings) * Fin 60"
    unfolding assms(4)
    by (intro add_upward up nonnegUp_times nonnegUp_divide abs_nonnegUp assms(2,3,5)) simp
  have r: "totalFilament st \<le> totalFilament st"
    using totalsLe_refl [OF assms(1)] by (simp add: totalsLe_def)
  show ?thesis
    using t r assms(1)
    by (simp add: layerMove_def okState_def totalsLe_def)
qed

lemma foldl_mono:
  assumes "\<And>s a. a \<in> set as \<Longrightarrow> okState s \<Longrightarrow> okState (f s a) \<and> totalsLe s (f s a)"
    and "okState s"
  shows "okState (foldl f s as) \<and> totalsLe s (foldl f s as)"
  using assms
proof (induction as arbitrary: s)
  case Nil
  then show ?case by (simp add: totalsLe_refl)
next
  case (Cons a as)
  have 1: "okState (f s a)" "totalsLe s (f s a)" using Cons.prems by simp_all
  have 2: "okState (foldl f (f s a) as) \<and> totalsLe (f s a) (foldl f (f s a) as)"
    using Cons.IH [OF _ 1(1)] Cons.prems(1) by simp
  show ?case using 1 2 by (auto intro: totalsLe_trans)
qed

lemma foldl_extrudeTo_mono:
  assumes "okState st" "\<forall>q \<in> set ps. finitePos q"
    and "printSpeed settings = Fin vp" "0 < vp" "e = Fin er" "0 < er"
  shows "okState (foldl (extrudeTo F settings e layerZ) st ps)
       \<and> totalsLe st (foldl (extrudeTo F settings e layerZ) st ps)"
proof (rule foldl_mono [OF _ assms(1)])
  fix s a assume "a \<in> set ps" and s: "okState s"
  then have "isFinite (px a)" "isFinite (py a)" using assms(2) by (auto simp: finitePos_def)
  from extrudeTo_mono [OF s this assms(3-6)]
  show "okState (extrudeTo F settings e layerZ s a) \<and> totalsLe s (extrudeTo F settings e layerZ s a)" .
qed

lemma emitLoop_mono:
  assumes "okState st" "\<forall>p \<in> set loop. finitePos p"
    and "travelSpeed settings = Fin vt" "0 < vt"
    and "printSpeed settings = Fin vp" "0 < vp" "e = Fin er" "0 < er"
  shows "okState (emitLoop F settings e layerZ st loop) \<and> totalsLe st (emitLoop F settings e layerZ st loop)"
proof (cases "length loop < 2")
  case True
  then show ?thesis using assms(1) by (simp add: emitLoop_def totalsLe_refl)
next
  case False
  then have "loop ! 0 \<in> set loop" by (cases loop) auto
  then have "isFinite (px (loop ! 0))" "isFinite (py (loop ! 0))"
    using assms(2) by (auto simp: finitePos_def)
  from travelTo_mono [OF assms(1) this assms(3,4)]
  have t: "okState (travelTo F settings layerZ st (loop ! 0))"
      "totalsLe st (travelTo F settings layerZ st (loop ! 0))"
    by blast+
  have "\<forall>q \<in> set (drop 1 loop). finitePos q"
    using assms(2) by (meson in_set_dropD)
  from foldl_extrudeTo_mono [OF t(1) this assms(5-8)]
  show ?thesis using False t(2) by (auto simp: emitLoop_def intro: totalsLe_trans)
qed

lemma layerZ_notNaN:
  assumes "isFinite minZ" "isFinite h"
  shows "minZ + Fin 0.2 + (Fin (real index) * h) \<noteq> NaN"
proof -
  obtain a d where ad: "minZ = Fin a" "\<bar>a\<bar> \<le> maxDouble" "h = Fin d"
    using assms by (auto simp: isFinite_iff)
  have "maxDouble + 1 < overflowAt" by (simp add: maxDouble_def overflowAt_def)
  then have "\<exists>b. ovf (a + 0.2) = Fin b"
    using ad(2) by (auto simp: ovf_def)
  then obtain b where b: "minZ + Fin 0.2 = Fin b" by (auto simp: ad)
  have "Fin b + ovf x \<noteq> NaN" for x
    by (auto simp: ovf_def)
  then show ?thesis unfolding b ad(3) by simp
qed

lemma emitLayer_mono:
  assumes "okState st" "isFinite (pz (currentPos st))"
    and "\<forall>loop \<in> set (snd il). \<forall>p \<in> set loop. finitePos p"
    and "isFinite minZ" "isFinite (layerHeight settings)"
    and "travelSpeed settings = Fin vt" "0 < vt"
    and "printSpeed settings = Fin vp" "0 < vp" "e = Fin er" "0 < er"
  shows "okState (emitLayer F settings e minZ st il) \<and> totalsLe st (emitLayer F settings e minZ st il)"
proof (cases "length (snd il) = 0")
  case True
  then show ?thesis using assms(1) by (simp add: emitLayer_def totalsLe_refl)
next
  case False
  define layerZ where "layerZ = minZ + Fin 0.2 + (Fin (real (fst il)) * layerHeight settings)"
  have lz: "layerZ \<noteq> NaN"
    unfolding layerZ_def by (rule layerZ_notNaN [OF assms(4,5)])
  have m: "okState (layerMove F settings layerZ (fst il) st)"
      "totalsLe st (layerMove F settings layerZ (fst il) st)"
    using layerMove_mono [OF assms(1,2) lz assms(6,7)] by blast+
  have "\<And>s a. a \<in> set (snd il) \<Longrightarrow> okState s \<Longrightarrow>
      okState (emitLoop F settings e layerZ s a) \<and> totalsLe s (emitLoop F settings e layerZ s a)"
    using emitLoop_mono [OF _ _ assms(6-11)] assms(3) by blast
  from foldl_mono [of "snd il" "emitLoop F settings e layerZ", OF this m(1)]
  have f: "okState (foldl (emitLoop F settings e layerZ) (layerMove F settings layerZ (fst il) st) (snd il))"
    "totalsLe st (foldl (emitLoop F settings e layerZ) (layerMove F settings layerZ (fst il) st) (snd il))"
    using m(2) by (auto intro: totalsLe_trans)
  have "emitLayer F settings e minZ st il
      = foldl (emitLoop F settings e layerZ) (layerMove F settings layerZ (fst il) st) (snd il)"
    using False unfolding emitLayer_def Let_def layerZ_def by simp
  then show ?thesis using f by simp
qed

text \<open>C9, as amended: with finite positive travel and print speeds, a finite positive
  extrusion per millimetre, and finite heights, points and totals, every move (the move in
  Z of a layer, a travel, an extrusion) leaves both totals at least what they were; so do
  the emission of a loop, the extrusion through more points after any points already
  processed, and the emission of a layer.\<close>

theorem emission_totals_monotone:
  assumes "travelSpeed settings = Fin vt" "0 < vt"
    and "printSpeed settings = Fin vp" "0 < vp"
    and "e = Fin er" "0 < er"
    and "isFinite minZ" "isFinite (layerHeight settings)" "isFinite layerZ"
    and "goodState st" "finitePos p"
    and "\<forall>q \<in> set (ps @ ps'). finitePos q"
    and "\<forall>loop \<in> set loops. \<forall>q \<in> set loop. finitePos q"
  shows "totalsLe st (layerMove F settings layerZ index st)
       \<and> totalsLe st (travelTo F settings layerZ st p)
       \<and> totalsLe st (extrudeTo F settings e layerZ st p)
       \<and> totalsLe st (emitLoop F settings e layerZ st ps)
       \<and> totalsLe (foldl (extrudeTo F settings e layerZ) st ps)
            (foldl (extrudeTo F settings e layerZ) st (ps @ ps'))
       \<and> totalsLe st (emitLayer F settings e minZ st (index, loops))"
proof (intro conjI)
  have ok: "okState st" using assms(10) by (rule goodState_okState)
  have cz: "isFinite (pz (currentPos st))" using assms(10) by (simp add: goodState_def finitePos_def)
  have lz: "layerZ \<noteq> NaN" using assms(9) by (auto simp: isFinite_iff)
  have p: "isFinite (px p)" "isFinite (py p)" using assms(11) by (simp_all add: finitePos_def)
  have fin: "\<forall>q \<in> set ps. finitePos q" "\<forall>q \<in> set ps'. finitePos q"
    using assms(12) by auto
  show "totalsLe st (layerMove F settings layerZ index st)"
    using layerMove_mono [OF ok cz lz assms(1,2)] by blast
  show "totalsLe st (travelTo F settings layerZ st p)"
    using travelTo_mono [OF ok p assms(1,2)] by blast
  show "totalsLe st (extrudeTo F settings e layerZ st p)"
    using extrudeTo_mono [OF ok p assms(3,4,5,6)] by blast
  show "totalsLe st (emitLoop F settings e layerZ st ps)"
    using emitLoop_mono [OF ok fin(1) assms(1,2,3,4,5,6)] by blast
  have 1: "okState (foldl (extrudeTo F settings e layerZ) st ps)"
    using foldl_extrudeTo_mono [OF ok fin(1) assms(3,4,5,6)] by blast
  show "totalsLe (foldl (extrudeTo F settings e layerZ) st ps)
            (foldl (extrudeTo F settings e layerZ) st (ps @ ps'))"
    unfolding foldl_append
    using foldl_extrudeTo_mono [OF 1 fin(2) assms(3,4,5,6)] by blast
  show "totalsLe st (emitLayer F settings e minZ st (index, loops))"
    using emitLayer_mono [of st "(index, loops)", OF ok cz _ assms(7,8,1,2,3,4,5,6)] assms(13)
    by simp
qed

theorem emission_totals_monotone_witness:
  "travelSpeed exSettings = Fin 3000 \<and> printSpeed exSettings = Fin 1500 \<and> goodState startState
   \<and> totalsLe startState (extrudeTo exFormatter exSettings (Fin 1) (Fin 0.2) startState
         (mkPos (Fin 1) (Fin 0) (Fin 0)))
   \<and> totalsLe startState (emitLoop exFormatter exSettings (Fin 1) (Fin 0.2) startState exLoop)
   \<and> totalsLe (foldl (extrudeTo exFormatter exSettings (Fin 1) (Fin 0.2)) startState exLoop)
        (foldl (extrudeTo exFormatter exSettings (Fin 1) (Fin 0.2)) startState (exLoop @ exLoop))
   \<and> totalsLe startState (emitLayer exFormatter exSettings (Fin 1) (Fin 0) startState (0, [exLoop]))"
proof -
  have s: "travelSpeed exSettings = Fin 3000" "(0::real) < 3000"
    "printSpeed exSettings = Fin 1500" "(0::real) < 1500"
    "Fin 1 = Fin 1" "(0::real) < 1" "isFinite (Fin 0)" "isFinite (layerHeight exSettings)"
    "isFinite (Fin 0.2)" "goodState startState" "finitePos (mkPos (Fin 1) (Fin 0) (Fin 0))"
    "\<forall>q \<in> set (exLoop @ exLoop). finitePos q"
    "\<forall>loop \<in> set [exLoop]. \<forall>q \<in> set loop. finitePos q"
    by (simp_all add: exSettings_def goodState_def startState_def finitePos_def mkPos_def exLoop_def
        isFinite_small del: isFinite.simps)
  show ?thesis
    using emission_totals_monotone [OF s, of exFormatter 0] s(1,3,10) by simp
qed

lemma fanMesh_transformed: "map (\<lambda>t. applyTransform t idTransform) fanMesh = fanMesh"
  by (simp add: fanMesh_def applyTransform_def idTransform_def mkPos_def ovf_small)

lemma fanMesh_bounds: "getZBounds fanMesh = (Fin 0, Fin 1)"
  by (simp add: getZBounds_def fanMesh_def mkPos_def
      Math_min_def Math_max_def min2_def max2_def)

lemma fanMesh_segments:
  "layerSegments fanMesh (Fin 0.2) =
     [\<lparr>seg_start = mkPos (Fin 1) (Fin 1) (Fin 0.2), seg_end = mkPos (Fin 0) (Fin 1) (Fin 0.2)\<rparr>,
      \<lparr>seg_start = mkPos (Fin 1) (Fin 0) (Fin 0.2), seg_end = mkPos (Fin 1) (Fin 1) (Fin 0.2)\<rparr>]"
  by (simp add: layerSegments_def fanMesh_def Math_min_def Math_max_def min2_def max2_def
      intersectTriangleZ_def intersectEdge_def mkPos_def minus_num_def Let_def ovf_small)

lemma fanMesh_contours:
  "layerContours fanMesh (Fin 0.2) =
     [[mkPos (Fin 1) (Fin 0) (Fin 0.2), mkPos (Fin 1) (Fin 1) (Fin 0.2), mkPos (Fin 0) (Fin 1) (Fin 0.2)]]"
  unfolding layerContours_def fanMesh_segments
  by (simp add: chainSegments_def chainLoop.simps grow.simps closeLoop_def Let_def mkPos_def
      minus_num_def EPSILON_def hypot_less ovf_small del: Math_hypot.simps)

lemma fanMesh_layers:
  "sliceLoop fanMesh (Fin 4) (Fin 1) (Fin 0 + Fin 0.2) [] = Some [layerContours fanMesh (Fin 0.2)]"
  by (subst sliceLoop.simps, simp add: ovf_small, subst sliceLoop.simps, simp add: ovf_small)

lemma fanMesh_emit:
  "totalTime (emitLayers exFormatter reverseSettings e (Fin 0)
      \<lparr>gcodeLines = preamble exFormatter reverseSettings, visualPath = [],
        totalFilament = Fin 0, totalTime = Fin 0, currentPos = mkPos (Fin 0) (Fin 0) (Fin 0)\<rparr>
      [layerContours fanMesh (Fin 0.2)]) = Fin (- 0.056)"
  unfolding fanMesh_contours
  by (simp add: emitLayers_def enumerate_eq_zip emitLayer_def layerMove_def emitLoop_def
      travelTo_def extrudeTo_def reverseSettings_def exSettings_def
      mkPos_def minus_num_def Let_def ovf_small)

text \<open>C9 as stated fails: with a print speed of \<open>-1500\<close>, \<open>sliceMesh\<close> on the mesh
  of two triangles starts the total time at 0 and returns \<open>-0.056\<close>: the two extruding
  moves each add \<open>-0.04\<close>.\<close>

theorem negative_speed_sliceMesh:
  "printSpeed reverseSettings = Fin (- 1500)
   \<and> (\<exists>r. sliceMesh exFormatter fanMesh idTransform reverseSettings = Some r
          \<and> fileTotalTime (gcode r) = Fin (- 0.056)
          \<and> \<not> Fin 0 \<le> fileTotalTime (gcode r))"
proof -
  have h: "layerHeight reverseSettings = Fin 4" "printSpeed reverseSettings = Fin (- 1500)"
    by (simp_all add: reverseSettings_def exSettings_def)
  have run: "sliceLoop (map (\<lambda>t. applyTransform t idTransform) fanMesh)
        (layerHeight reverseSettings)
        (snd (getZBounds (map (\<lambda>t. applyTransform t idTransform) fanMesh)))
        (fst (getZBounds (map (\<lambda>t. applyTransform t idTransform) fanMesh)) + Fin 0.2) []
      = Some [layerContours fanMesh (Fin 0.2)]"
    unfolding fanMesh_transformed fanMesh_bounds h fst_conv snd_conv by (rule fanMesh_layers)
  define st where "st = emitLayers exFormatter reverseSettings
      ((nozzleDiameter reverseSettings * layerHeight reverseSettings)
         / (Fin pi * Math_pow (filamentDiameter reverseSettings / Fin 2) 2))
      (Fin 0)
      \<lparr>gcodeLines = preamble exFormatter reverseSettings, visualPath = [],
        totalFilament = Fin 0, totalTime = Fin 0, currentPos = mkPos (Fin 0) (Fin 0) (Fin 0)\<rparr>
      [layerContours fanMesh (Fin 0.2)]"
  have r: "sliceMesh exFormatter fanMesh idTransform reverseSettings
      = Some \<lparr>paths = visualPath st,
              gcode = \<lparr>name = ''output.gcode'', lines = gcodeLines st @ postamble,
                       fileTotalTime = totalTime st, fileTotalFilament = totalFilament st\<rparr>\<rparr>"
    unfolding sliceMesh_def Let_def run option.case
    unfolding fanMesh_transformed fanMesh_bounds fst_conv st_def ..
  have "totalTime st = Fin (- 0.056)" unfolding st_def by (rule fanMesh_emit)
  then show ?thesis using r h(2) by simp
qed

lemma foldl_extrudeTo_visualPath:
  "visualPath (foldl (extrudeTo F settings e layerZ) st ps)
     = visualPath st @ map (\<lambda>p. mkPos (px p) (py p) layerZ) ps"
  by (induction ps arbitrary: st) (simp_all add: extrudeTo_def Let_def)

lemma foldl_extrudeTo_gcodeLines:
  "\<exists>ls. gcodeLines (foldl (extrudeTo F settings e layerZ) st ps) = gcodeLines st @ ls
      \<and> length ls = length ps \<and> (\<forall>l \<in> set ls. take 3 l = ''G1 '')"
proof (induction ps arbitrary: st)
  case Nil
  then show ?case by simp
next
  case (Cons p ps)
  obtain ls where ls: "gcodeLines (foldl (extrudeTo F settings e layerZ) (extrudeTo F settings e layerZ st p) ps)
      = gcodeLines (extrudeTo F settings e layerZ st p) @ ls" "length ls = length ps"
      "\<forall>l \<in> set ls. take 3 l = ''G1 ''"
    using Cons.IH by blast
  obtain l where l: "gcodeLines (extrudeTo F settings e layerZ st p) = gcodeLines st @ [l]"
      "take 3 l = ''G1 ''"
    by (simp add: extrudeTo_def Let_def)
  show ?case
    by (rule exI [of _ "l # ls"]) (simp add: ls l)
qed

text \<open>C10: for a loop whose first point lies within 0.05 of the tool position in X and Y,
  the travel step leaves the state as it is (no instruction, no visualization point, the
  same position). A loop of one point changes nothing; a loop of two points or more adds
  one extruding line and one visualization point for each point after the first, and the
  first of these moves takes its distance, and so its extrusion and its time, from the
  previous tool position.\<close>

theorem emitLoop_near_start:
  assumes "Math_hypot (px (loop ! 0) - px (currentPos st)) (py (loop ! 0) - py (currentPos st))
             \<le> Fin 0.05"
  shows "travelTo F settings layerZ st (loop ! 0) = st
       \<and> (length loop = 1 \<longrightarrow> emitLoop F settings e layerZ st loop = st)
       \<and> (2 \<le> length loop \<longrightarrow>
            emitLoop F settings e layerZ st loop
              = foldl (extrudeTo F settings e layerZ) (extrudeTo F settings e layerZ st (loop ! 1))
                  (drop 2 loop)
          \<and> totalFilament (extrudeTo F settings e layerZ st (loop ! 1))
              = totalFilament st
                + Math_hypot (px (loop ! 1) - px (currentPos st)) (py (loop ! 1) - py (currentPos st)) * e
          \<and> totalTime (extrudeTo F settings e layerZ st (loop ! 1))
              = totalTime st
                + (Math_hypot (px (loop ! 1) - px (currentPos st)) (py (loop ! 1) - py (currentPos st))
                     / printSpeed settings) * Fin 60
          \<and> visualPath (emitLoop F settings e layerZ st loop)
              = visualPath st @ map (\<lambda>p. mkPos (px p) (py p) layerZ) (drop 1 loop)
          \<and> (\<exists>ls. gcodeLines (emitLoop F settings e layerZ st loop) = gcodeLines st @ ls
                 \<and> length ls = length loop - 1 \<and> (\<forall>l \<in> set ls. take 3 l = ''G1 '')))"
proof (intro conjI impI)
  show t: "travelTo F settings layerZ st (loop ! 0) = st"
    using num_le_not_gt [OF assms(1)] by (simp add: travelTo_def Let_def)
  show "emitLoop F settings e layerZ st loop = st" if "length loop = 1"
    using that by (simp add: emitLoop_def)
  assume len2: "2 \<le> length loop"
  have e: "emitLoop F settings e layerZ st loop = foldl (extrudeTo F settings e layerZ) st (drop 1 loop)"
    using len2 by (simp add: emitLoop_def t)
  have d: "drop 1 loop = loop ! 1 # drop 2 loop"
    using len2 by (metis Cons_nth_drop_Suc Suc_1 Suc_le_lessD one_add_one plus_1_eq_Suc)
  show "emitLoop F settings e layerZ st loop
      = foldl (extrudeTo F settings e layerZ) (extrudeTo F settings e layerZ st (loop ! 1)) (drop 2 loop)"
    unfolding e d by simp
  show "totalFilament (extrudeTo F settings e layerZ st (loop ! 1))
           = totalFilament st
             + Math_hypot (px (loop ! 1) - px (currentPos st)) (py (loop ! 1) - py (currentPos st)) * e"
    by (simp add: extrudeTo_def Let_def)
  show "totalTime (extrudeTo F settings e layerZ st (loop ! 1))
           = totalTime st
             + (Math_hypot (px (loop ! 1) - px (currentPos st)) (py (loop ! 1) - py (currentPos st))
                  / printSpeed settings) * Fin 60"
    by (simp add: extrudeTo_def Let_def)
  show "visualPath (emitLoop F settings e layerZ st loop)
           = visualPath st @ map (\<lambda>p. mkPos (px p) (py p) layerZ) (drop 1 loop)"
    unfolding e by (rule foldl_extrudeTo_visualPath)
  have len: "length (drop 1 loop) = length loop - 1" by simp
  show "\<exists>ls. gcodeLines (emitLoop F settings e layerZ st loop) = gcodeLines st @ ls
              \<and> length ls = length loop - 1 \<and> (\<forall>l \<in> set ls. take 3 l = ''G1 '')"
    using foldl_extrudeTo_gcodeLines [of F settings e layerZ st "drop 1 loop"]
    unfolding e len .
qed

theorem emitLoop_near_start_witness:
  "Math_hypot (px (nearLoop ! 0) - px (currentPos startState))
       (py (nearLoop ! 0) - py (currentPos startState)) \<le> Fin 0.05
   \<and> travelTo exFormatter exSettings (Fin 0.2) startState (nearLoop ! 0) = startState
   \<and> visualPath (emitLoop exFormatter exSettings (Fin 1) (Fin 0.2) startState nearLoop)
       = [mkPos (Fin 0.03) (Fin 1.04) (Fin 0.2), mkPos (Fin 1.03) (Fin 1.04) (Fin 0.2)]
   \<and> totalFilament (extrudeTo exFormatter exSettings (Fin 1) (Fin 0.2) startState (nearLoop ! 1))
       = Fin 0 + Math_hypot (Fin 0.03 - Fin 0) (Fin 1.04 - Fin 0) * Fin 1
   \<and> emitLoop exFormatter exSettings (Fin 1) (Fin 0.2) startState [nearLoop ! 0] = startState"
proof -
  have h: "Math_hypot (px (nearLoop ! 0) - px (currentPos startState))
       (py (nearLoop ! 0) - py (currentPos startState)) \<le> Fin 0.05"
    by (simp add: nearLoop_def startState_def mkPos_def minus_num_def hypot_le ovf_small
        del: Math_hypot.simps)
  have l: "2 \<le> length nearLoop" by (simp add: nearLoop_def)
  have n: "nearLoop ! 1 = mkPos (Fin 0.03) (Fin 1.04) (Fin 0)"
      "drop 1 nearLoop = [mkPos (Fin 0.03) (Fin 1.04) (Fin 0), mkPos (Fin 1.03) (Fin 1.04) (Fin 0)]"
    by (simp_all add: nearLoop_def)
  have c: "px (currentPos startState) = Fin 0" "py (currentPos startState) = Fin 0"
      "totalFilament startState = Fin 0" "visualPath startState = []"
    by (simp_all add: startState_def mkPos_def)
  have m: "px (mkPos a b c) = a" "py (mkPos a b c) = b" for a b c
    by (simp_all add: mkPos_def)
  from emitLoop_near_start [OF h, of exFormatter exSettings "Fin 0.2" "Fin 1"] l
  have "travelTo exFormatter exSettings (Fin 0.2) startState (nearLoop ! 0) = startState"
    and "visualPath (emitLoop exFormatter exSettings (Fin 1) (Fin 0.2) startState nearLoop)
       = visualPath startState @ map (\<lambda>p. mkPos (px p) (py p) (Fin 0.2)) (drop 1 nearLoop)"
    and "totalFilament (extrudeTo exFormatter exSettings (Fin 1) (Fin 0.2) startState (nearLoop ! 1))
       = totalFilament startState
         + Math_hypot (px (nearLoop ! 1) - px (currentPos startState))
             (py (nearLoop ! 1) - py (currentPos startState)) * Fin 1"
    by blast+
  moreover have "emitLoop exFormatter exSettings (Fin 1) (Fin 0.2) startState [nearLoop ! 0]
      = startState"
    using emitLoop_near_start [of "[nearLoop ! 0]" startState exFormatter exSettings "Fin 0.2" "Fin 1"] h
    by simp
  ultimately show ?thesis
    using h unfolding n c by (simp add: m)
qed

section \<open>Layer heights: properties\<close>

lemma heightAt_shift: "heightAt (z + h) h k = heightAt z h (Suc k)"
  by (induction k) simp_all

lemma layersAt_Suc:
  "layersAt tris z h (Suc n) = layerContours tris z # layersAt tris (z + h) h n"
proof -
  have "[0..<Suc n] = 0 # map Suc [0..<n]"
    by (simp add: upt_conv_Cons map_Suc_upt del: upt_Suc)
  then show ?thesis
    by (simp add: layersAt_def heightAt_shift comp_def del: upt_Suc)
qed

lemma sliceLoop_layersAt:
  assumes "sliceLoop tris h maxZ z acc = Some layers"
  shows "\<exists>n. layers = acc @ layersAt tris z h n
     \<and> (\<forall>k<n. heightAt z h k \<le> maxZ) \<and> \<not> heightAt z h n \<le> maxZ"
proof (rule sliceLoop.raw_induct [where P = "\<lambda>tris h maxZ z acc layers.
    \<exists>n. layers = acc @ layersAt tris z h n
      \<and> (\<forall>k<n. heightAt z h k \<le> maxZ) \<and> \<not> heightAt z h n \<le> maxZ", OF _ assms])
  fix sl :: "Triangle list \<Rightarrow> num \<Rightarrow> num \<Rightarrow> num \<Rightarrow> Position list list list
      \<Rightarrow> Position list list list option"
  fix tris :: "Triangle list" and h maxZ z :: num and acc layers :: "Position list list list"
  assume IH: "\<And>tris h maxZ z acc layers. sl tris h maxZ z acc = Some layers \<Longrightarrow>
      \<exists>n. layers = acc @ layersAt tris z h n
        \<and> (\<forall>k<n. heightAt z h k \<le> maxZ) \<and> \<not> heightAt z h n \<le> maxZ"
    and body: "(if z \<le> maxZ then sl tris h maxZ (z + h) (acc @ [layerContours tris z])
        else Some acc) = Some layers"
  show "\<exists>n. layers = acc @ layersAt tris z h n
      \<and> (\<forall>k<n. heightAt z h k \<le> maxZ) \<and> \<not> heightAt z h n \<le> maxZ"
  proof (cases "z \<le> maxZ")
    case True
    then have "sl tris h maxZ (z + h) (acc @ [layerContours tris z]) = Some layers"
      using body by simp
    from IH [OF this] obtain n where
      n: "layers = (acc @ [layerContours tris z]) @ layersAt tris (z + h) h n"
      "\<forall>k<n. heightAt (z + h) h k \<le> maxZ" "\<not> heightAt (z + h) h n \<le> maxZ"
      by blast
    have a: "layers = acc @ layersAt tris z h (Suc n)"
      using n(1) by (simp add: layersAt_Suc)
    have b: "\<forall>k<Suc n. heightAt z h k \<le> maxZ"
    proof (intro allI impI)
      fix k assume "k < Suc n"
      then show "heightAt z h k \<le> maxZ"
        using True n(2) by (cases k) (simp_all add: heightAt_shift del: heightAt.simps(2))
    qed
    have c: "\<not> heightAt z h (Suc n) \<le> maxZ"
      using n(3) unfolding heightAt_shift .
    show ?thesis using a b c by blast
  next
    case False
    then have "layers = acc" using body by simp
    then have "layers = acc @ layersAt tris z h 0 \<and> (\<forall>k<0. heightAt z h k \<le> maxZ)
        \<and> \<not> heightAt z h 0 \<le> maxZ"
      using False by (simp add: layersAt_def)
    then show ?thesis by blast
  qed
qed

lemma heightAt_stuck:
  "heightAt z h (Suc k) = heightAt z h k \<Longrightarrow> heightAt z h (k + j) = heightAt z h k"
  by (induction j) simp_all

lemma heightAt_lower:
  assumes "0 < d" "heightAt z (Fin d) 0 = PInf \<or> (\<exists>a. heightAt z (Fin d) 0 = Fin a \<and> - maxDouble \<le> a)"
  shows "heightAt z (Fin d) k = PInf \<or> (\<exists>a. heightAt z (Fin d) k = Fin a \<and> - maxDouble \<le> a)"
proof (induction k)
  case 0
  show ?case by (rule assms(2))
next
  case (Suc k)
  then show ?case
  proof
    assume "heightAt z (Fin d) k = PInf"
    then show ?thesis by simp
  next
    assume "\<exists>a. heightAt z (Fin d) k = Fin a \<and> - maxDouble \<le> a"
    then obtain a where a: "heightAt z (Fin d) k = Fin a" "- maxDouble \<le> a" by blast
    have "- maxDouble < a + d" using a(2) assms(1) by linarith
    then show ?thesis
      using maxDouble_bounds by (auto simp: a ovf_def)
  qed
qed

lemma step_up:
  assumes "0 < d" "- maxDouble \<le> a" "a \<le> maxDouble"
  shows "Fin a + Fin d = Fin a \<or> Fin a < Fin a + Fin d"
  using assms maxDouble_bounds by (auto simp: ovf_def)

lemma start_height:
  assumes "isFinite minZ"
  shows "\<exists>a. minZ + Fin 0.2 = Fin a \<and> - maxDouble \<le> a"
proof -
  obtain m where m: "minZ = Fin m" "\<bar>m\<bar> \<le> maxDouble"
    using assms by (auto simp: isFinite_iff)
  have "maxDouble + 1 < overflowAt" by (simp add: maxDouble_def overflowAt_def)
  then show ?thesis
    using m(2) maxDouble_bounds by (auto simp: m(1) ovf_def)
qed

lemma heights_increase:
  assumes "isFinite minZ" "isFinite maxZ" "0 < d"
    and "\<forall>k<n. heightAt (minZ + Fin 0.2) (Fin d) k \<le> maxZ"
    and "\<not> heightAt (minZ + Fin 0.2) (Fin d) n \<le> maxZ"
    and "k < n"
  shows "heightAt (minZ + Fin 0.2) (Fin d) k < heightAt (minZ + Fin 0.2) (Fin d) (Suc k)"
proof -
  let ?z = "minZ + Fin 0.2"
  obtain t where t: "maxZ = Fin t" "\<bar>t\<bar> \<le> maxDouble"
    using assms(2) by (auto simp: isFinite_iff)
  have le: "heightAt ?z (Fin d) k \<le> Fin t" using assms(4,6) t(1) by simp
  have "heightAt ?z (Fin d) 0 = PInf \<or> (\<exists>a. heightAt ?z (Fin d) 0 = Fin a \<and> - maxDouble \<le> a)"
    using start_height [OF assms(1)] by simp
  from heightAt_lower [OF assms(3) this, of k] le
  obtain a where a: "heightAt ?z (Fin d) k = Fin a" "- maxDouble \<le> a" by auto
  have "a \<le> maxDouble" using le t(2) unfolding a(1) by simp
  from step_up [OF assms(3) a(2) this]
  show ?thesis
  proof
    assume "Fin a + Fin d = Fin a"
    then have "heightAt ?z (Fin d) (Suc k) = heightAt ?z (Fin d) k"
      unfolding heightAt.simps a(1) .
    from heightAt_stuck [OF this, of "n - k"]
    have "heightAt ?z (Fin d) n = heightAt ?z (Fin d) k" using assms(6) by simp
    then show ?thesis using assms(5) le t(1) by simp
  next
    assume "Fin a < Fin a + Fin d"
    then show ?thesis unfolding heightAt.simps a(1) .
  qed
qed

lemma sliceMesh_emitResult:
  "sliceMesh F rawTriangles transform settings =
     map_option (emitResult F settings (fst (getZBounds (map (\<lambda>t. applyTransform t transform) rawTriangles))))
       (sliceLoop (map (\<lambda>t. applyTransform t transform) rawTriangles) (layerHeight settings)
          (snd (getZBounds (map (\<lambda>t. applyTransform t transform) rawTriangles)))
          (fst (getZBounds (map (\<lambda>t. applyTransform t transform) rawTriangles)) + Fin 0.2) [])"
  by (simp add: sliceMesh_def emitResult_def Let_def split: option.splits)

text \<open>C6, as amended: for finite bounds and a positive layer height, a result of \<open>sliceMesh\<close>
  is the emission of the layers cut at the heights that the loop variable takes, from
  \<open>minZ + 0.2\<close> in steps of \<open>+ layerHeight\<close> as the program adds them, up to and without the
  first that is not \<open>\<le> maxZ\<close>; these heights never exceed \<open>maxZ\<close> and each is strictly below
  the next; there is at least one when \<open>minZ + 0.2 \<le> maxZ\<close>.\<close>

theorem sliceMesh_layers:
  assumes "getZBounds (map (\<lambda>t. applyTransform t transform) rawTriangles) = (minZ, maxZ)"
    and "isFinite minZ" "isFinite maxZ"
    and "layerHeight settings = Fin d" "0 < d"
    and "sliceMesh F rawTriangles transform settings = Some r"
  shows "\<exists>n. sliceLoop (map (\<lambda>t. applyTransform t transform) rawTriangles) (layerHeight settings)
             maxZ (minZ + Fin 0.2) []
           = Some (layersAt (map (\<lambda>t. applyTransform t transform) rawTriangles)
                     (minZ + Fin 0.2) (layerHeight settings) n)
      \<and> r = emitResult F settings minZ
              (layersAt (map (\<lambda>t. applyTransform t transform) rawTriangles)
                 (minZ + Fin 0.2) (layerHeight settings) n)
      \<and> (\<forall>k<n. heightAt (minZ + Fin 0.2) (layerHeight settings) k \<le> maxZ
              \<and> heightAt (minZ + Fin 0.2) (layerHeight settings) k
                  < heightAt (minZ + Fin 0.2) (layerHeight settings) (Suc k))
      \<and> \<not> heightAt (minZ + Fin 0.2) (layerHeight settings) n \<le> maxZ
      \<and> (minZ + Fin 0.2 \<le> maxZ \<longrightarrow> 0 < n)"
proof -
  let ?tris = "map (\<lambda>t. applyTransform t transform) rawTriangles"
  let ?z = "minZ + Fin 0.2"
  from assms(6) obtain layers where
    run: "sliceLoop ?tris (layerHeight settings) maxZ ?z [] = Some layers"
    and r: "r = emitResult F settings minZ layers"
    by (auto simp: sliceMesh_emitResult assms(1))
  from sliceLoop_layersAt [OF run] obtain n where
    n: "layers = layersAt ?tris ?z (layerHeight settings) n"
      "\<forall>k<n. heightAt ?z (layerHeight settings) k \<le> maxZ"
      "\<not> heightAt ?z (layerHeight settings) n \<le> maxZ"
    by auto
  have inc: "\<forall>k<n. heightAt ?z (layerHeight settings) k < heightAt ?z (layerHeight settings) (Suc k)"
    using heights_increase [OF assms(2,3,5) n(2,3) [unfolded assms(4)]]
    unfolding assms(4) by blast
  have pos: "?z \<le> maxZ \<longrightarrow> 0 < n"
    using n(3) by (cases n) auto
  show ?thesis
    using run r n inc pos by blast
qed

theorem sliceMesh_layers_witness:
  "getZBounds (map (\<lambda>t. applyTransform t idTransform) fanMesh) = (Fin 0, Fin 1)
   \<and> isFinite (Fin 0) \<and> isFinite (Fin 1) \<and> layerHeight exSettings = Fin 4
   \<and> sliceMesh exFormatter fanMesh idTransform exSettings
       = Some (emitResult exFormatter exSettings (Fin 0) [layerContours fanMesh (Fin 0.2)])
   \<and> (\<exists>n. sliceLoop (map (\<lambda>t. applyTransform t idTransform) fanMesh) (layerHeight exSettings)
             (Fin 1) (Fin 0 + Fin 0.2) []
           = Some (layersAt (map (\<lambda>t. applyTransform t idTransform) fanMesh)
                     (Fin 0 + Fin 0.2) (layerHeight exSettings) n)
      \<and> emitResult exFormatter exSettings (Fin 0) [layerContours fanMesh (Fin 0.2)]
          = emitResult exFormatter exSettings (Fin 0)
              (layersAt (map (\<lambda>t. applyTransform t idTransform) fanMesh)
                 (Fin 0 + Fin 0.2) (layerHeight exSettings) n)
      \<and> (\<forall>k<n. heightAt (Fin 0 + Fin 0.2) (layerHeight exSettings) k \<le> Fin 1
              \<and> heightAt (Fin 0 + Fin 0.2) (layerHeight exSettings) k
                  < heightAt (Fin 0 + Fin 0.2) (layerHeight exSettings) (Suc k))
      \<and> \<not> heightAt (Fin 0 + Fin 0.2) (layerHeight exSettings) n \<le> Fin 1
      \<and> (Fin 0 + Fin 0.2 \<le> Fin 1 \<longrightarrow> 0 < n))"
proof -
  have b: "getZBounds (map (\<lambda>t. applyTransform t idTransform) fanMesh) = (Fin 0, Fin 1)"
    by (simp only: fanMesh_transformed fanMesh_bounds)
  have f: "isFinite (Fin 0)" "isFinite (Fin 1)" by (rule isFinite_small, simp)+
  have h: "layerHeight exSettings = Fin 4" by (simp add: exSettings_def)
  have d: "(0::real) < 4" by simp
  have z: "Fin 0 + Fin 0.2 = Fin 0.2" by (simp add: ovf_small)
  have r: "sliceMesh exFormatter fanMesh idTransform exSettings
       = Some (emitResult exFormatter exSettings (Fin 0) [layerContours fanMesh (Fin 0.2)])"
    unfolding sliceMesh_emitResult fanMesh_transformed fanMesh_bounds fst_conv snd_conv h
      fanMesh_layers by simp
  from sliceMesh_layers [OF b f h d r] b f h r
  show ?thesis by blast
qed

lemma tall_facts:
  "lowZ < maxDouble" "lowZ \<le> maxDouble" "\<not> maxDouble \<le> lowZ" "\<not> maxDouble < lowZ"
  "\<bar>lowZ\<bar> \<le> maxDouble" "0 < tallStep"
  by (simp_all add: lowZ_def maxDouble_def tallStep_def)

lemma tall_sums:
  "Fin lowZ + Fin 0.2 = Fin (lowZ + 0.2)"
  "Fin (lowZ + 0.2) \<le> Fin maxDouble"
  "Fin (lowZ + 0.2) + Fin tallStep = Fin maxDouble"
  "Fin maxDouble + Fin tallStep = PInf"
  by (simp_all add: ovf_def lowZ_def maxDouble_def overflowAt_def tallStep_def)

lemma tall_ovf: "ovf lowZ = Fin lowZ" "ovf maxDouble = Fin maxDouble"
  using tall_facts(5) maxDouble_bounds(3) by (simp_all add: ovf_id)

lemma tallMesh_transformed: "map (\<lambda>t. applyTransform t idTransform) tallMesh = tallMesh"
  by (simp add: tallMesh_def applyTransform_def idTransform_def mkPos_def ovf_small tall_ovf)

lemma tallMesh_bounds: "getZBounds tallMesh = (Fin lowZ, Fin maxDouble)"
  by (simp add: getZBounds_def tallMesh_def mkPos_def Math_min_def Math_max_def min2_def max2_def
      tall_facts)

lemma tallMesh_layers:
  "sliceLoop tris (Fin tallStep) (Fin maxDouble) (Fin lowZ + Fin 0.2) [] =
     Some [layerContours tris (Fin lowZ + Fin 0.2),
           layerContours tris (Fin lowZ + Fin 0.2 + Fin tallStep)]"
proof -
  have 3: "sliceLoop tris (Fin tallStep) (Fin maxDouble) PInf acc = Some acc" for acc
    by (subst sliceLoop.simps) simp
  have 2: "sliceLoop tris (Fin tallStep) (Fin maxDouble) (Fin maxDouble) acc
      = Some (acc @ [layerContours tris (Fin maxDouble)])" for acc
    by (subst sliceLoop.simps) (simp only: tall_sums(4) 3 less_eq_num.simps order_refl if_True)
  have 1: "sliceLoop tris (Fin tallStep) (Fin maxDouble) (Fin (lowZ + 0.2)) acc
      = Some ((acc @ [layerContours tris (Fin (lowZ + 0.2))]) @ [layerContours tris (Fin maxDouble)])" for acc
    by (subst sliceLoop.simps) (simp only: tall_sums(2,3) 2 if_True)
  show ?thesis
    unfolding tall_sums(1) tall_sums(3) 1 by simp
qed

lemma tall_claimed: "claimedLayerCount (Fin lowZ) (Fin maxDouble) (Fin tallStep) = Fin 1"
proof -
  define q :: real where "q = (maxDouble - (lowZ + 0.2)) / tallStep"
  have q: "0 \<le> q" "q < 1"
    by (simp_all add: q_def lowZ_def tallStep_def)
  then have fl: "\<lfloor>q\<rfloor> = 0" by linarith
  have m: "Fin maxDouble - Fin (lowZ + 0.2) = Fin (maxDouble - (lowZ + 0.2))"
    unfolding minus_num_def by (simp add: ovf_def lowZ_def maxDouble_def overflowAt_def)
  have t: "tallStep \<noteq> 0" using tall_facts(6) by simp
  have "Fin (maxDouble - (lowZ + 0.2)) / Fin tallStep = ovf q"
    using t by (simp add: q_def)
  also have "\<dots> = Fin q"
  proof (rule ovf_small)
    have "\<bar>q\<bar> \<le> 1" using q by linarith
    moreover have "(1::real) \<le> 2 ^ 64" by simp
    ultimately show "\<bar>q\<bar> \<le> 2 ^ 64" by linarith
  qed
  finally have "Math_floor (Fin (maxDouble - (lowZ + 0.2)) / Fin tallStep) = Fin 0"
    by (simp add: fl)
  then show ?thesis
    unfolding claimedLayerCount_def tall_sums(1) m by (simp add: ovf_small)
qed

text \<open>C6 as stated fails: the triangle of \<open>tallMesh\<close> has its Z between \<open>2^1024 - 2^972\<close> and
  the largest double \<open>2^1024 - 2^971\<close>, and with a layer height of \<open>5 * 2^969\<close> the loop of
  \<open>sliceMesh\<close> runs twice, where the claimed count is 1.\<close>

theorem layer_count_mismatch:
  "getZBounds (map (\<lambda>t. applyTransform t idTransform) tallMesh) = (Fin lowZ, Fin maxDouble)
   \<and> isFinite (Fin lowZ) \<and> isFinite (Fin maxDouble)
   \<and> layerHeight tallSettings = Fin tallStep \<and> 0 < tallStep
   \<and> Fin lowZ + Fin 0.2 \<le> Fin maxDouble
   \<and> sliceLoop (map (\<lambda>t. applyTransform t idTransform) tallMesh) (layerHeight tallSettings)
        (Fin maxDouble) (Fin lowZ + Fin 0.2) []
      = Some [layerContours (map (\<lambda>t. applyTransform t idTransform) tallMesh) (Fin lowZ + Fin 0.2),
              layerContours (map (\<lambda>t. applyTransform t idTransform) tallMesh)
                (Fin lowZ + Fin 0.2 + layerHeight tallSettings)]
   \<and> sliceMesh exFormatter tallMesh idTransform tallSettings
      = Some (emitResult exFormatter tallSettings (Fin lowZ)
          [layerContours (map (\<lambda>t. applyTransform t idTransform) tallMesh) (Fin lowZ + Fin 0.2),
           layerContours (map (\<lambda>t. applyTransform t idTransform) tallMesh)
             (Fin lowZ + Fin 0.2 + layerHeight tallSettings)])
   \<and> claimedLayerCount (Fin lowZ) (Fin maxDouble) (layerHeight tallSettings) = Fin 1"
proof -
  have h: "layerHeight tallSettings = Fin tallStep" by (simp add: tallSettings_def)
  have b: "getZBounds (map (\<lambda>t. applyTransform t idTransform) tallMesh) = (Fin lowZ, Fin maxDouble)"
    by (simp only: tallMesh_transformed tallMesh_bounds)
  have f: "isFinite (Fin lowZ)" "isFinite (Fin maxDouble)"
    using tall_facts(5) maxDouble_bounds(3) by simp_all
  have le: "Fin lowZ + Fin 0.2 \<le> Fin maxDouble"
    unfolding tall_sums(1) by (rule tall_sums(2))
  have run: "sliceLoop (map (\<lambda>t. applyTransform t idTransform) tallMesh) (layerHeight tallSettings)
        (Fin maxDouble) (Fin lowZ + Fin 0.2) []
      = Some [layerContours (map (\<lambda>t. applyTransform t idTransform) tallMesh) (Fin lowZ + Fin 0.2),
              layerContours (map (\<lambda>t. applyTransform t idTransform) tallMesh)
                (Fin lowZ + Fin 0.2 + layerHeight tallSettings)]"
    unfolding h by (rule tallMesh_layers)
  have r: "sliceMesh exFormatter tallMesh idTransform tallSettings
      = Some (emitResult exFormatter tallSettings (Fin lowZ)
          [layerContours (map (\<lambda>t. applyTransform t idTransform) tallMesh) (Fin lowZ + Fin 0.2),
           layerContours (map (\<lambda>t. applyTransform t idTransform) tallMesh)
             (Fin lowZ + Fin 0.2 + layerHeight tallSettings)])"
    unfolding sliceMesh_emitResult b fst_conv snd_conv run by simp
  have c: "claimedLayerCount (Fin lowZ) (Fin maxDouble) (layerHeight tallSettings) = Fin 1"
    unfolding h by (rule tall_claimed)
  show ?thesis
    using h b f le run r c tall_facts(6) by blast
qed

lemma stall_step:
  assumes "z \<le> Fin maxDouble" "d < 2 ^ 970"
  shows "z + Fin d \<le> Fin maxDouble"
proof (cases z)
  case (Fin a)
  have "overflowAt = maxDouble + 2 ^ 970" by (simp add: overflowAt_def maxDouble_def)
  then have "a + d < overflowAt" using assms Fin by simp
  then show ?thesis
    using maxDouble_bounds(3) by (auto simp: Fin ovf_def)
qed (use assms in simp_all)

lemma sliceLoop_stalls:
  assumes "d < 2 ^ 970" "z \<le> Fin maxDouble"
  shows "sliceLoop tris (Fin d) (Fin maxDouble) z acc = None"
proof (rule ccontr)
  assume "sliceLoop tris (Fin d) (Fin maxDouble) z acc \<noteq> None"
  then obtain y where y: "sliceLoop tris (Fin d) (Fin maxDouble) z acc = Some y" by blast
  have "Fin d = Fin d \<longrightarrow> Fin maxDouble = Fin maxDouble \<longrightarrow> z \<le> Fin maxDouble \<longrightarrow> False"
  proof (rule sliceLoop.raw_induct [where P = "\<lambda>tris h maxZ z acc y.
      h = Fin d \<longrightarrow> maxZ = Fin maxDouble \<longrightarrow> z \<le> Fin maxDouble \<longrightarrow> False", OF _ y])
    fix sl :: "Triangle list \<Rightarrow> num \<Rightarrow> num \<Rightarrow> num \<Rightarrow> Position list list list
        \<Rightarrow> Position list list list option"
    fix tris :: "Triangle list" and h maxZ z :: num and acc y :: "Position list list list"
    assume IH: "\<And>tris h maxZ z acc y. sl tris h maxZ z acc = Some y \<Longrightarrow>
        h = Fin d \<longrightarrow> maxZ = Fin maxDouble \<longrightarrow> z \<le> Fin maxDouble \<longrightarrow> False"
      and body: "(if z \<le> maxZ then sl tris h maxZ (z + h) (acc @ [layerContours tris z])
          else Some acc) = Some y"
    show "h = Fin d \<longrightarrow> maxZ = Fin maxDouble \<longrightarrow> z \<le> Fin maxDouble \<longrightarrow> False"
    proof (intro impI)
      assume a: "h = Fin d" "maxZ = Fin maxDouble" "z \<le> Fin maxDouble"
      then have "sl tris h maxZ (z + h) (acc @ [layerContours tris z]) = Some y"
        using body by simp
      from IH [OF this] a(1,2) stall_step [OF a(3) assms(1)]
      show False by simp
    qed
  qed
  then show False using assms(2) by simp
qed

text \<open>The loop need not end for a positive layer height either: with the top of the mesh at
  the largest double and a layer height of 4, no addition takes \<open>z\<close> past \<open>maxZ\<close>, and
  \<open>sliceMesh\<close> does not return.\<close>

lemma sliceMesh_no_return: "sliceMesh F tallMesh idTransform exSettings = None"
proof -
  have h: "layerHeight exSettings = Fin 4" by (simp add: exSettings_def)
  have "Fin lowZ + Fin 0.2 \<le> Fin maxDouble"
    unfolding tall_sums(1) by (rule tall_sums(2))
  then have "sliceLoop tallMesh (Fin 4) (Fin maxDouble) (Fin lowZ + Fin 0.2) [] = None"
    by (intro sliceLoop_stalls) simp_all
  then show ?thesis
    unfolding sliceMesh_emitResult tallMesh_transformed tallMesh_bounds fst_conv snd_conv h
    by simp
qed

end
